theory Spec2Isabelle
  imports Main "HOL-Library.Word" "HOL-Library.AList"
begin

text \<open>
  The certification and retrieval core of ProofVault: the proof registry contract and its
  simulation, proof verification, the storage-deal tracker with its cache and health
  score, the gateway ranking with failover retrieval, and the webhook store. Each source
  function is a HOL function of the same name; clocks, random values and the answers of
  the network are arguments, and what a function writes is part of its result.
\<close>

section \<open>JavaScript values\<close>

text \<open>
  An object read from JSON is a finite map from property names to JSON values. A property
  that is absent reads as \<open>undefined\<close>, which is \<open>None\<close> here. An error object carries its
  message.
\<close>

datatype jsval = JNull | JBool bool | JNum int | JStr string | JArr "jsval list"

type_synonym jsobj = "string \<rightharpoonup> jsval"

datatype js_error = Error string

definition errorMessage :: "js_error \<Rightarrow> string" where
  "errorMessage e = (case e of Error m \<Rightarrow> m)"

section \<open>Deal tracking (src/lib/filecoinDeals.js)\<close>

text \<open>
  JavaScript strings are modelled as \<^typ>\<open>string\<close>; the content identifiers, hex digests
  and status words the program handles are ASCII, where a character is one code unit.
  The values of the \<open>DEAL_STATUS\<close> table are a datatype.
\<close>

datatype DEAL_STATUS = UNKNOWN | PENDING | ACTIVE | EXPIRED | SLASHED | NOT_FOUND

text \<open>
  A deal as \<open>parseW3SResponse\<close> and \<open>simulateDealInfo\<close> build it. Instants
  (\<open>activation\<close>, \<open>expiration\<close>, \<open>created\<close>) are kept as milliseconds since the epoch,
  the argument of \<open>new Date(...)\<close>, not as the ISO text rendered from it.
\<close>

record deal =
  dealId :: string
  provider :: string
  dstatus :: DEAL_STATUS
  pieceCid :: string
  activation :: int
  expiration :: int
  created :: int

text \<open>
  The deal summary object. A field the source may leave out is an option: \<open>deals\<close> is
  read as \<open>dealInfo.deals || []\<close>. The fields \<open>dagSize\<close> and \<open>created\<close>, which
  \<open>parseW3SResponse\<close> copies from the response and nothing reads, are left out, as is
  \<open>dataCid\<close> of a deal.
\<close>

record dealInfo =
  status :: DEAL_STATUS
  deals :: "deal list option"
  pinned :: "bool option"
  simulated :: bool
  message :: "string option"
  error :: "string option"


text \<open>\<open>dealInfo.deals || []\<close>\<close>

definition dealsOf :: "dealInfo \<Rightarrow> deal list" where
  "dealsOf d = (case deals d of None \<Rightarrow> [] | Some ds \<Rightarrow> ds)"




subsection \<open>Strings and numbers\<close>

text \<open>\<open>String.prototype.toLowerCase\<close> on ASCII text: the letters A to Z move to a to z.\<close>

definition lowerChar :: "char \<Rightarrow> char" where
  "lowerChar ch =
     (if 65 \<le> (of_char ch :: nat) \<and> (of_char ch :: nat) \<le> 90
      then char_of ((of_char ch :: nat) + 32) else ch)"

definition toLowerCase :: "string \<Rightarrow> string" where
  "toLowerCase s = map lowerChar s"

text \<open>The decimal text of a number that is not negative, as a template literal renders it.\<close>

function decimal :: "nat \<Rightarrow> string" where
  "decimal n = (if n < 10 then [char_of (48 + n)] else decimal (n div 10) @ [char_of (48 + n mod 10)])"
  by pat_completeness auto
termination
  by (relation "measure id") auto

subsection \<open>The status response and its parsing\<close>

text \<open>
  The JSON body of the status endpoint, as far as \<open>parseW3SResponse\<close> reads it. A deal's
  \<open>status\<close> may be missing (\<open>status?.toLowerCase()\<close>).
\<close>

record w3s_deal =
  w_dealId :: string
  w_storageProvider :: string
  w_status :: "string option"
  w_pieceCid :: string
  w_dealActivation :: int
  w_dealExpiration :: int
  w_created :: int

record w3s_data =
  w_deals :: "w3s_deal list option"
  w_pins :: "nat option"

definition mapDealStatus :: "string option \<Rightarrow> DEAL_STATUS" where
  "mapDealStatus st =
     (case st of
        None \<Rightarrow> UNKNOWN
      | Some x \<Rightarrow>
          let l = toLowerCase x
          in if l = ''active'' \<or> l = ''activedeal'' then ACTIVE
             else if l = ''pending'' \<or> l = ''published'' \<or> l = ''queued'' then PENDING
             else if l = ''expired'' then EXPIRED
             else if l = ''slashed'' then SLASHED
             else UNKNOWN)"

definition parseW3SResponse :: "w3s_data \<Rightarrow> dealInfo" where
  "parseW3SResponse d =
     (let ds = map (\<lambda>x. \<lparr>dealId = w_dealId x, provider = w_storageProvider x,
                          dstatus = mapDealStatus (w_status x), pieceCid = w_pieceCid x,
                          activation = w_dealActivation x, expiration = w_dealExpiration x,
                          created = w_created x\<rparr>)
                  (case w_deals d of None \<Rightarrow> [] | Some xs \<Rightarrow> xs);
          hasActiveDeals = list_ex (\<lambda>x. dstatus x = ACTIVE) ds;
          hasPendingDeals = list_ex (\<lambda>x. dstatus x = PENDING) ds
      in \<lparr>status = (if hasActiveDeals then ACTIVE
                    else if hasPendingDeals then PENDING
                    else if length ds > 0 then EXPIRED else UNKNOWN),
          deals = Some ds,
          pinned = Some (case w_pins d of None \<Rightarrow> False | Some n \<Rightarrow> n > 0),
          simulated = False, message = None, error = None\<rparr>)"

subsection \<open>The simulated deals\<close>

text \<open>
  \<open>cid.split('').reduce((a, b) => a + b.charCodeAt(0), 0)\<close>: the sum of the code units.
\<close>

definition cidHash :: "string \<Rightarrow> nat" where
  "cidHash c = foldl (\<lambda>a b. a + of_char b) 0 c"

definition dayMs :: int where
  "dayMs = 24 * 60 * 60 * 1000"

text \<open>\<open>cid.slice(-32)\<close>: the last 32 characters, or all of a shorter string.\<close>

definition sliceLast32 :: "string \<Rightarrow> string" where
  "sliceLast32 c = drop (length c - 32) c"

text \<open>
  \<open>simulateDealInfo(cid)\<close>; \<open>now\<close> is the reading of \<open>Date.now()\<close> the function takes.
\<close>

definition simulateDealInfo :: "int \<Rightarrow> string \<Rightarrow> dealInfo" where
  "simulateDealInfo now c =
     (let hash = cidHash c;
          hasDeals = (hash mod 3 \<noteq> 0)
      in if \<not> hasDeals
         then \<lparr>status = PENDING, deals = Some [], pinned = None, simulated = True,
                message = Some ''Deal aggregation in progress'', error = None\<rparr>
         else
           let providers = [''f01234'', ''f05678'', ''f09012''];
               ds = map (\<lambda>(i, p).
                      \<lparr>dealId = decimal (1000000 + (hash * (i + 1)) mod 999999),
                       provider = p,
                       dstatus = ACTIVE,
                       pieceCid = ''baga6ea4seaq'' @ sliceLast32 c,
                       activation = now - (30 + int i * 10) * dayMs,
                       expiration = now + (180 - int i * 30) * dayMs,
                       created = now - (35 + int i * 10) * dayMs\<rparr>)
                    (enumerate 0 (take (hash mod 3 + 1) providers))
           in \<lparr>status = ACTIVE, deals = Some ds, pinned = Some True, simulated = True,
                message = None, error = None\<rparr>)"

text \<open>
  Moving every instant of a summary's deals by \<open>delta\<close> milliseconds; used to compare two
  simulations taken at different clock readings.
\<close>

definition shiftDeal :: "int \<Rightarrow> deal \<Rightarrow> deal" where
  "shiftDeal delta d = d\<lparr>activation := activation d + delta, expiration := expiration d + delta,
     created := created d + delta\<rparr>"

definition shiftInfo :: "int \<Rightarrow> dealInfo \<Rightarrow> dealInfo" where
  "shiftInfo delta info = info\<lparr>deals := map_option (map (shiftDeal delta)) (deals info)\<rparr>"

subsection \<open>The cache and the query\<close>

definition DEAL_CACHE_TTL :: int where
  "DEAL_CACHE_TTL = 5 * 60 * 1000"

text \<open>
  The cache object kept under \<open>DEAL_CACHE_KEY\<close>: its keys in insertion order, each with
  the data and the time of the write. The store is taken to hold what \<open>cacheDeal\<close> wrote
  (well-formed JSON) and to accept writes.
\<close>

record cache_entry =
  ce_data :: dealInfo
  ce_timestamp :: int

type_synonym deal_cache = "(string \<times> cache_entry) list"

text \<open>
  \<open>getCachedDeal(cid)\<close>. A key the object does not own reads as \<open>undefined\<close>, or as a
  property inherited from the prototype, which has no \<open>timestamp\<close>: the comparison with
  the TTL is then false. Either way the lookup misses.
\<close>

definition getCachedDeal :: "int \<Rightarrow> deal_cache \<Rightarrow> string \<Rightarrow> dealInfo option" where
  "getCachedDeal now cache c =
     (case map_of cache c of
        None \<Rightarrow> None
      | Some entry \<Rightarrow> if now - ce_timestamp entry < DEAL_CACHE_TTL then Some (ce_data entry) else None)"

text \<open>
  \<open>cacheDeal(cid, data)\<close>. The cache is a plain object, so the assignment
  \<open>cache[cid] = {data, timestamp}\<close> stores a property under every key but one: for the
  key \<open>__proto__\<close>, unless the object has it as a property of its own, the assignment sets
  the prototype of the object instead, and \<open>JSON.stringify\<close> writes no entry.
\<close>

definition cacheDeal :: "int \<Rightarrow> deal_cache \<Rightarrow> string \<Rightarrow> dealInfo \<Rightarrow> deal_cache" where
  "cacheDeal now cache c d =
     (let kept = filter (\<lambda>(key, entry). \<not> now - ce_timestamp entry > DEAL_CACHE_TTL * 2) cache
      in if c = ''__proto__'' \<and> c \<notin> fst ` set kept then kept
         else AList.update c \<lparr>ce_data = d, ce_timestamp = now\<rparr> kept)"

text \<open>
  What the status endpoint does for one request: the request fails, or it answers with
  an HTTP status that is not ok, or with a body that parses as JSON or does not.
\<close>

datatype w3s_outcome = NetworkFailure | HttpError nat | Body w3s_data | BadBody

text \<open>
  \<open>fetchDealFromW3S(cid)\<close>: every throw inside its \<open>try\<close> lands in its \<open>catch\<close>, which
  returns the simulation. \<open>now\<close> is the clock when the simulation runs.
\<close>

definition fetchDealFromW3S :: "w3s_outcome \<Rightarrow> int \<Rightarrow> string \<Rightarrow> dealInfo" where
  "fetchDealFromW3S outcome now c =
     (case outcome of
        HttpError st \<Rightarrow>
          if st = 404
          then \<lparr>status = NOT_FOUND, deals = Some [], pinned = None, simulated = False,
                 message = None, error = None\<rparr>
          else simulateDealInfo now c
      | Body d \<Rightarrow> parseW3SResponse d
      | NetworkFailure \<Rightarrow> simulateDealInfo now c
      | BadBody \<Rightarrow> simulateDealInfo now c)"

text \<open>
  One call of \<open>getDealInfo(cid)\<close>, run to its end before the next call starts. The call
  reads the clock on entry (\<open>t_call\<close>, in \<open>getCachedDeal\<close>) and, after the query has
  answered, in the simulation (\<open>t_sim\<close>) and in \<open>cacheDeal\<close> (\<open>t_write\<close>). The result
  comes with the cache afterwards and the number of queries sent to the status endpoint.
  The \<open>catch\<close> of \<open>getDealInfo\<close> is never entered for a string argument, since neither
  \<open>fetchDealFromW3S\<close> nor \<open>cacheDeal\<close> lets an exception out.
\<close>

record deal_call =
  t_call :: int
  outcome :: w3s_outcome
  t_sim :: int
  t_write :: int

definition getDealInfo :: "deal_call \<Rightarrow> deal_cache \<Rightarrow> string \<Rightarrow> dealInfo \<times> deal_cache \<times> nat" where
  "getDealInfo k cache c =
     (if c = [] then
        (\<lparr>status = NOT_FOUND, deals = Some [], pinned = None, simulated = False,
          message = None, error = None\<rparr>, cache, 0)
      else
        case getCachedDeal (t_call k) cache c of
          Some cached \<Rightarrow> (cached, cache, 0)
        | None \<Rightarrow>
            let info = fetchDealFromW3S (outcome k) (t_sim k) c
            in (info, cacheDeal (t_write k) cache c info, 1))"

section \<open>The ledger contract (contracts/FilecoinProofRegistry.sol)\<close>

type_synonym bytes32 = "256 word"
type_synonym address = "160 word"
type_synonym uint256 = "256 word"
type_synonym uint64 = "64 word"

record Proof =
  sha256Hash :: bytes32
  cid :: string
  proofId :: string
  registrant :: address
  timestamp :: uint256
  blockNumber :: uint256
  dealIds :: "uint64 list"
  storageProvider :: string

text \<open>The struct \<open>DealInfo\<close> of the contract; its fields carry the prefix \<open>di_\<close>.\<close>

record DealInfo =
  di_dealId :: uint64
  di_provider :: string
  di_startEpoch :: uint256
  di_endEpoch :: uint256
  di_active :: bool

datatype event =
    ProofRegistered string bytes32 string address uint256 uint256
  | DealLinked string uint64 string
  | DealStatusUpdated string uint64 bool

text \<open>
  The storage of the contract. A Solidity mapping is total: a key never written reads as
  the zero value of its type, so the mappings are functions. \<open>events\<close> is the log the
  \<open>emit\<close> statements append to.
\<close>

record registry =
  proofs :: "string \<Rightarrow> Proof"
  hashToProofId :: "bytes32 \<Rightarrow> string"
  cidToProofId :: "string \<Rightarrow> string"
  proofDeals :: "string \<Rightarrow> DealInfo list"
  totalProofs :: uint256
  totalDealsTracked :: uint256
  owner :: address
  events :: "event list"

text \<open>What a call reads of the transaction and the block.\<close>

record call_env =
  msg_sender :: address
  block_timestamp :: uint256
  block_number :: uint256

text \<open>
  A failed \<open>require\<close> reverts with its message; a checked increment that would overflow
  panics. Either way the call changes nothing.
\<close>

datatype revert = Revert string | Panic

definition zeroProof :: Proof where
  "zeroProof = \<lparr>sha256Hash = 0, cid = [], proofId = [], registrant = 0, timestamp = 0,
     blockNumber = 0, dealIds = [], storageProvider = []\<rparr>"

text \<open>The state the constructor leaves: empty storage, the deployer as owner.\<close>

definition deploy :: "address \<Rightarrow> registry" where
  "deploy a = \<lparr>proofs = (\<lambda>_. zeroProof), hashToProofId = (\<lambda>_. []), cidToProofId = (\<lambda>_. []),
     proofDeals = (\<lambda>_. []), totalProofs = 0, totalDealsTracked = 0, owner = a, events = []\<rparr>"

text \<open>
  \<open>registerProof\<close>. The modifier \<open>nonReentrant\<close> never fires: the body makes no external
  call.
\<close>

definition registerProof ::
  "call_env \<Rightarrow> registry \<Rightarrow> string \<Rightarrow> bytes32 \<Rightarrow> string \<Rightarrow> string \<Rightarrow> revert + registry" where
  "registerProof env s pid h c sp =
     (if \<not> length pid > 0 then Inl (Revert ''Invalid proof ID'')
      else if \<not> h \<noteq> 0 then Inl (Revert ''Invalid hash'')
      else if \<not> length c > 0 then Inl (Revert ''Invalid CID'')
      else if \<not> timestamp (proofs s pid) = 0 then Inl (Revert ''Proof ID already exists'')
      else if \<not> length (hashToProofId s h) = 0 then Inl (Revert ''Hash already registered'')
      else if totalProofs s + 1 = 0 then Inl Panic
      else
        let newProof = \<lparr>sha256Hash = h, cid = c, proofId = pid, registrant = msg_sender env,
                         timestamp = block_timestamp env, blockNumber = block_number env,
                         dealIds = [], storageProvider = sp\<rparr>
        in Inr (s\<lparr>proofs := (proofs s)(pid := newProof),
                  hashToProofId := (hashToProofId s)(h := pid),
                  cidToProofId := (cidToProofId s)(c := pid),
                  totalProofs := totalProofs s + 1,
                  events := events s @ [ProofRegistered pid h c (msg_sender env)
                                          (block_timestamp env) (block_number env)]\<rparr>))"

definition linkDeal ::
  "call_env \<Rightarrow> registry \<Rightarrow> string \<Rightarrow> uint64 \<Rightarrow> string \<Rightarrow> uint256 \<Rightarrow> uint256 \<Rightarrow> revert + registry" where
  "linkDeal env s pid did prov startEpoch endEpoch =
     (if \<not> timestamp (proofs s pid) > 0 then Inl (Revert ''Proof not found'')
      else if \<not> (registrant (proofs s pid) = msg_sender env \<or> owner s = msg_sender env)
        then Inl (Revert ''Not authorized'')
      else if totalDealsTracked s + 1 = 0 then Inl Panic
      else
        let d = \<lparr>di_dealId = did, di_provider = prov, di_startEpoch = startEpoch,
                  di_endEpoch = endEpoch, di_active = True\<rparr>
        in Inr (s\<lparr>proofDeals := (proofDeals s)(pid := proofDeals s pid @ [d]),
                  proofs := (proofs s)(pid := (proofs s pid)\<lparr>dealIds := dealIds (proofs s pid) @ [did]\<rparr>),
                  totalDealsTracked := totalDealsTracked s + 1,
                  events := events s @ [DealLinked pid did prov]\<rparr>))"

definition updateDealStatus ::
  "call_env \<Rightarrow> registry \<Rightarrow> string \<Rightarrow> uint256 \<Rightarrow> bool \<Rightarrow> revert + registry" where
  "updateDealStatus env s pid dealIndex act =
     (if \<not> timestamp (proofs s pid) > 0 then Inl (Revert ''Proof not found'')
      else if \<not> unat dealIndex < length (proofDeals s pid) then Inl (Revert ''Invalid deal index'')
      else if \<not> (registrant (proofs s pid) = msg_sender env \<or> owner s = msg_sender env)
        then Inl (Revert ''Not authorized'')
      else
        let ds = proofDeals s pid;
            ds' = ds[unat dealIndex := (ds ! unat dealIndex)\<lparr>di_active := act\<rparr>]
        in Inr (s\<lparr>proofDeals := (proofDeals s)(pid := ds'),
                  events := events s @ [DealStatusUpdated pid (di_dealId (ds' ! unat dealIndex)) act]\<rparr>))"

text \<open>
  The view functions read the storage. The lookups return their result only;
  \<open>verifyProof\<close> is written with the storage it leaves, which its body does not assign.
\<close>

definition getProof :: "registry \<Rightarrow> string \<Rightarrow> revert + Proof" where
  "getProof s pid =
     (if \<not> timestamp (proofs s pid) > 0 then Inl (Revert ''Proof not found'')
      else Inr (proofs s pid))"

definition getProofByHash :: "registry \<Rightarrow> bytes32 \<Rightarrow> revert + Proof" where
  "getProofByHash s h =
     (let pid = hashToProofId s h
      in if \<not> length pid > 0 then Inl (Revert ''Proof not found'') else Inr (proofs s pid))"

definition getProofByCid :: "registry \<Rightarrow> string \<Rightarrow> revert + Proof" where
  "getProofByCid s c =
     (let pid = cidToProofId s c
      in if \<not> length pid > 0 then Inl (Revert ''Proof not found'') else Inr (proofs s pid))"

definition verifyProof :: "registry \<Rightarrow> string \<Rightarrow> bytes32 \<Rightarrow> bool \<times> registry" where
  "verifyProof s pid h =
     (let proof = proofs s pid in (timestamp proof > 0 \<and> sha256Hash proof = h, s))"

definition proofExists :: "registry \<Rightarrow> string \<Rightarrow> bool" where
  "proofExists s pid = (timestamp (proofs s pid) > 0)"

definition hashExists :: "registry \<Rightarrow> bytes32 \<Rightarrow> bool" where
  "hashExists s h = (length (hashToProofId s h) > 0)"

text \<open>
  The states the contract can be in: the deployed state, and every state a successful
  call leads to. \<open>Ownable\<close> lets the owner hand the contract over, which changes the field
  \<open>owner\<close> only.
\<close>

inductive reachable :: "registry \<Rightarrow> bool" where
  reach_deploy: "reachable (deploy a)"
| reach_register: "reachable s \<Longrightarrow> registerProof env s pid h c sp = Inr s' \<Longrightarrow> reachable s'"
| reach_link: "reachable s \<Longrightarrow> linkDeal env s pid did prov se ee = Inr s' \<Longrightarrow> reachable s'"
| reach_update: "reachable s \<Longrightarrow> updateDealStatus env s pid i act = Inr s' \<Longrightarrow> reachable s'"
| reach_owner: "reachable s \<Longrightarrow> reachable (s\<lparr>owner := a\<rparr>)"

section \<open>The simulated chain (src/lib/wagmiConfig.js)\<close>

record sim_proof =
  sp_proofId :: string
  sp_sha256Hash :: string
  sp_cid :: string
  sp_registrant :: string
  sp_timestamp :: int
  sp_blockNumber :: int

record sim_tx =
  tx_hash :: string
  tx_type :: string
  tx_proofId :: string
  tx_blockNumber :: int
  tx_timestamp :: int

text \<open>
  The fields of \<open>SimulatedBlockchain\<close> that \<open>registerProof\<close> reads or writes (the NFT map
  and counter are not among them). \<open>proofs\<close> is a JavaScript \<open>Map\<close>: keys in insertion
  order, each key once. \<open>save()\<close> copies the state to the local store, from where only the
  constructor reads it back.
\<close>

record sim_chain =
  sc_blockNumber :: int
  sc_timestamp :: int
  sc_proofs :: "(string \<times> sim_proof) list"
  sc_transactions :: "sim_tx list"

record sim_receipt =
  r_hash :: string
  r_blockNumber :: int
  r_proof :: sim_proof

text \<open>
  \<open>SimulatedBlockchain.registerProof(proofId, sha256Hash, cid)\<close>, after its delay. The
  random transaction hash (\<open>generateTxHash()\<close>) and the clock \<open>mineBlock\<close> reads
  (\<open>Math.floor(Date.now() / 1000)\<close>) are arguments.
\<close>

definition sim_registerProof ::
  "string \<Rightarrow> int \<Rightarrow> sim_chain \<Rightarrow> string \<Rightarrow> string \<Rightarrow> string \<Rightarrow> js_error + (sim_receipt \<times> sim_chain)" where
  "sim_registerProof txHash now s pid h c =
     (if pid \<in> fst ` set (sc_proofs s) then Inl (Error ''Proof ID already exists'')
      else
        let hashKey = toLowerCase h
        in if list_ex (\<lambda>(_, proof). toLowerCase (sp_sha256Hash proof) = hashKey) (sc_proofs s)
           then Inl (Error ''Hash already registered'')
           else
             let proof = \<lparr>sp_proofId = pid, sp_sha256Hash = h, sp_cid = c,
                           sp_registrant = ''0xSimulated1234567890abcdef1234567890abcdef'',
                           sp_timestamp = sc_timestamp s, sp_blockNumber = sc_blockNumber s\<rparr>;
                 tx = \<lparr>tx_hash = txHash, tx_type = ''registerProof'', tx_proofId = pid,
                        tx_blockNumber = sc_blockNumber s, tx_timestamp = sc_timestamp s\<rparr>;
                 s' = \<lparr>sc_blockNumber = sc_blockNumber s + 1, sc_timestamp = now,
                        sc_proofs = AList.update pid proof (sc_proofs s),
                        sc_transactions = sc_transactions s @ [tx]\<rparr>
             in Inr (\<lparr>r_hash = txHash, r_blockNumber = sc_blockNumber s' - 1, r_proof = proof\<rparr>, s'))"

text \<open>The chain a new \<open>SimulatedBlockchain\<close> holds when nothing is stored.\<close>

definition sim_init :: "int \<Rightarrow> sim_chain" where
  "sim_init now = \<lparr>sc_blockNumber = 1, sc_timestamp = now, sc_proofs = [], sc_transactions = []\<rparr>"

subsection \<open>Hex digests and \<open>bytes32\<close>\<close>

text \<open>
  The simulated chain keeps a digest as its hex text, the contract as the \<open>bytes32\<close> value
  the text denotes: 64 hex digits, most significant first, in either case.
\<close>

definition hexDigit :: "char \<Rightarrow> nat option" where
  "hexDigit ch =
     (let n = (of_char ch :: nat)
      in if 48 \<le> n \<and> n \<le> 57 then Some (n - 48)
         else if 97 \<le> n \<and> n \<le> 102 then Some (n - 87)
         else if 65 \<le> n \<and> n \<le> 70 then Some (n - 55)
         else None)"

fun hexValue :: "string \<Rightarrow> nat option" where
  "hexValue [] = Some 0"
| "hexValue (ch # cs) =
     (case hexDigit ch of
        None \<Rightarrow> None
      | Some d \<Rightarrow> (case hexValue cs of None \<Rightarrow> None | Some v \<Rightarrow> Some (d * 16 ^ length cs + v)))"

definition bytes32_of_hex :: "string \<Rightarrow> bytes32 option" where
  "bytes32_of_hex s = (if length s = 64 then map_option of_nat (hexValue s) else None)"

subsection \<open>Running both registries on one sequence of calls\<close>

text \<open>
  One registration request, with what the environment supplies to either registry: the
  block and sender for the contract, the random transaction hash and the clock for the
  simulation.
\<close>

record reg_call =
  rc_proofId :: string
  rc_hash :: string
  rc_cid :: string
  rc_provider :: string
  rc_env :: call_env
  rc_txHash :: string
  rc_now :: int

text \<open>
  The outcome of a call as the caller sees it: the error message, or none. The contract
  takes the digest as \<open>bytes32\<close>; a text that is not 64 hex digits cannot be passed to it.
\<close>

definition revertMessage :: "revert \<Rightarrow> string" where
  "revertMessage r = (case r of Revert m \<Rightarrow> m | Panic \<Rightarrow> ''panic'')"

fun run_contract :: "registry \<Rightarrow> reg_call list \<Rightarrow> string option list" where
  "run_contract s [] = []"
| "run_contract s (k # ks) =
     (case bytes32_of_hex (rc_hash k) of
        None \<Rightarrow> Some ''malformed hash'' # run_contract s ks
      | Some h \<Rightarrow>
          (case registerProof (rc_env k) s (rc_proofId k) h (rc_cid k) (rc_provider k) of
             Inl e \<Rightarrow> Some (revertMessage e) # run_contract s ks
           | Inr s' \<Rightarrow> None # run_contract s' ks))"

fun run_sim :: "sim_chain \<Rightarrow> reg_call list \<Rightarrow> string option list" where
  "run_sim s [] = []"
| "run_sim s (k # ks) =
     (case sim_registerProof (rc_txHash k) (rc_now k) s (rc_proofId k) (rc_hash k) (rc_cid k) of
        Inl e \<Rightarrow> Some (errorMessage e) # run_sim s ks
      | Inr (_, s') \<Rightarrow> None # run_sim s' ks)"

text \<open>A request the contract's input checks let through.\<close>

definition valid_call :: "reg_call \<Rightarrow> bool" where
  "valid_call k =
     (rc_proofId k \<noteq> [] \<and> rc_cid k \<noteq> [] \<and> block_timestamp (rc_env k) \<noteq> 0 \<and>
      (case bytes32_of_hex (rc_hash k) of None \<Rightarrow> False | Some h \<Rightarrow> h \<noteq> 0))"

text \<open>
  When a state of the simulation and a state of the contract hold the same proofs: the
  same ids exist, every digest the simulation stores is well-formed, the contract's hash
  index is bound at exactly the values of those digests, and the contract's counter is
  the size of the simulation's map.
\<close>

definition corresponds :: "sim_chain \<Rightarrow> registry \<Rightarrow> bool" where
  "corresponds sim con =
     ((\<forall>pid. pid \<in> fst ` set (sc_proofs sim) \<longleftrightarrow> timestamp (proofs con pid) \<noteq> 0)
    \<and> (\<forall>p \<in> snd ` set (sc_proofs sim). bytes32_of_hex (sp_sha256Hash p) \<noteq> None)
    \<and> (\<forall>h. hashToProofId con h \<noteq> [] \<longleftrightarrow>
            (\<exists>p \<in> snd ` set (sc_proofs sim). bytes32_of_hex (sp_sha256Hash p) = Some h))
    \<and> unat (totalProofs con) = length (sc_proofs sim))"

section \<open>The API service (verifyProof)\<close>

text \<open>
  \<open>hashBuffer(buffer)\<close>: the digest bytes, each rendered by
  \<open>b.toString(16).padStart(2, '0')\<close>, joined. The digest itself
  (\<open>crypto.subtle.digest('SHA-256', buffer)\<close>) is an argument.
\<close>

definition hexChar :: "nat \<Rightarrow> char" where
  "hexChar n = (if n < 10 then char_of (48 + n) else char_of (87 + n))"

definition hexByte :: "8 word \<Rightarrow> string" where
  "hexByte b = [hexChar (unat b div 16), hexChar (unat b mod 16)]"

definition hashBuffer :: "(8 word list \<Rightarrow> 8 word list) \<Rightarrow> 8 word list \<Rightarrow> string" where
  "hashBuffer digest buffer = concat (map hexByte (digest buffer))"

text \<open>
  \<open>verifyProof(proofId, fileData)\<close> of the API service. The file arrives as an
  \<open>ArrayBuffer\<close>, as a \<open>Blob\<close> or \<open>File\<close>, or as something else. The saved proofs are a
  list of objects read from JSON; \<open>getProofById\<close>, the lookup of the proof store (\<open>None\<close>
  for \<open>null\<close>), is an argument.
\<close>

datatype fileData = ArrayBuffer "8 word list" | Blob "8 word list" | OtherData

record verify_result =
  v_success :: bool
  v_verified :: bool
  v_proof :: "jsobj option"
  v_providedHash :: "string option"
  v_expectedHash :: "jsval option"
  v_error :: "string option"

text \<open>
  The result (without its \<open>timestamp\<close>), the \<open>proof_verified\<close> events handed to
  \<open>triggerWebhook\<close> (proof id and verdict), and the saved proofs afterwards: the body
  reads them through \<open>getProofById\<close> and calls nothing that writes them.
\<close>

definition api_verifyProof ::
  "(8 word list \<Rightarrow> 8 word list) \<Rightarrow> (jsobj list \<Rightarrow> string \<Rightarrow> jsobj option) \<Rightarrow> jsobj list
     \<Rightarrow> string \<Rightarrow> fileData \<Rightarrow> verify_result \<times> (string \<times> bool) list \<times> jsobj list" where
  "api_verifyProof digest getProofById saved pid fd =
     (case getProofById saved pid of
        None \<Rightarrow>
          (\<lparr>v_success = False, v_verified = False, v_proof = None, v_providedHash = None,
            v_expectedHash = None, v_error = Some ''Proof not found''\<rparr>, [], saved)
      | Some proof \<Rightarrow>
          (case (case fd of ArrayBuffer b \<Rightarrow> Inr b | Blob b \<Rightarrow> Inr b
                          | OtherData \<Rightarrow> Inl (Error ''Invalid file data format'')) of
             Inl e \<Rightarrow>
               (\<lparr>v_success = False, v_verified = False, v_proof = None, v_providedHash = None,
                 v_expectedHash = None, v_error = Some (errorMessage e)\<rparr>, [], saved)
           | Inr buffer \<Rightarrow>
               let fileHash = hashBuffer digest buffer;
                   isMatch = (Some (JStr fileHash) = proof ''sha256Hash'')
               in (\<lparr>v_success = True, v_verified = isMatch, v_proof = Some proof,
                    v_providedHash = Some fileHash, v_expectedHash = proof ''sha256Hash'',
                    v_error = None\<rparr>, [(pid, isMatch)], saved)))"

section \<open>Webhook configuration (src/lib/webhooks.js)\<close>

text \<open>
  A webhook is an object read from JSON (\<open>jsobj\<close>). \<open>Array.prototype.findIndex\<close> gives the
  first index whose element passes, or \<open>-1\<close>.
\<close>

fun findIndex :: "('a \<Rightarrow> bool) \<Rightarrow> 'a list \<Rightarrow> int" where
  "findIndex P [] = -1"
| "findIndex P (x # xs) =
     (if P x then 0 else (let i = findIndex P xs in if i = -1 then -1 else i + 1))"

definition allowedUpdates :: "string list" where
  "allowedUpdates = [''name'', ''url'', ''events'', ''secret'', ''enabled'']"

text \<open>One round of the loop over \<open>allowedUpdates\<close>.\<close>

definition applyUpdate :: "jsobj \<Rightarrow> jsobj \<Rightarrow> string \<Rightarrow> jsobj" where
  "applyUpdate updates webhook key =
     (case updates key of None \<Rightarrow> webhook | Some v \<Rightarrow> webhook(key \<mapsto> v))"

text \<open>
  \<open>updateWebhook(id, updates)\<close> on the stored list (\<open>getWebhooks()\<close>, an empty list when
  nothing is stored). It returns the webhook or the error thrown, and the list in the
  store afterwards: \<open>saveWebhooks\<close> runs only when the webhook was found. The source
  changes the object \<open>webhooks[index]\<close> in place; the list update writes that out.
\<close>

definition updateWebhook :: "string \<Rightarrow> jsobj \<Rightarrow> jsobj list \<Rightarrow> (js_error + jsobj) \<times> jsobj list" where
  "updateWebhook ident updates webhooks =
     (let index = findIndex (\<lambda>w. w ''id'' = Some (JStr ident)) webhooks
      in if index = -1 then (Inl (Error ''Webhook not found''), webhooks)
         else
           let webhook = foldl (applyUpdate updates) (webhooks ! nat index) allowedUpdates
           in (Inr webhook, webhooks[nat index := webhook]))"

section \<open>Gateways (the gateway module in src/lib/webhooks.js)\<close>

record gateway =
  gw_id :: string
  gw_name :: string
  gw_url :: string
  priority :: int
  gw_type :: string

definition GATEWAYS :: "gateway list" where
  "GATEWAYS =
     [\<lparr>gw_id = ''w3s'', gw_name = ''Web3.Storage'', gw_url = ''https://w3s.link/ipfs/'',
        priority = 1, gw_type = ''primary''\<rparr>,
      \<lparr>gw_id = ''dweb'', gw_name = ''Dweb.link'', gw_url = ''https://dweb.link/ipfs/'',
        priority = 2, gw_type = ''primary''\<rparr>,
      \<lparr>gw_id = ''ipfs-io'', gw_name = ''IPFS.io'', gw_url = ''https://ipfs.io/ipfs/'',
        priority = 3, gw_type = ''public''\<rparr>,
      \<lparr>gw_id = ''cloudflare'', gw_name = ''Cloudflare'', gw_url = ''https://cloudflare-ipfs.com/ipfs/'',
        priority = 4, gw_type = ''public''\<rparr>,
      \<lparr>gw_id = ''pinata'', gw_name = ''Pinata'', gw_url = ''https://gateway.pinata.cloud/ipfs/'',
        priority = 5, gw_type = ''public''\<rparr>,
      \<lparr>gw_id = ''nftstorage'', gw_name = ''NFT.Storage'', gw_url = ''https://nftstorage.link/ipfs/'',
        priority = 6, gw_type = ''public''\<rparr>]"

text \<open>
  The status \<open>checkGatewayHealth\<close> resolves to. \<open>latency\<close> is
  \<open>Math.round(performance.now() - startTime)\<close>, a whole number of milliseconds that is
  never negative, or \<open>null\<close> when the probe threw.
\<close>

record health =
  healthy :: bool
  latency :: "nat option"
  herror :: "string option"

type_synonym ranked = "gateway \<times> health"

text \<open>\<open>a.health.latency || 9999\<close>: \<open>null\<close> and \<open>0\<close> are both falsy.\<close>

definition latencyOr9999 :: "health \<Rightarrow> int" where
  "latencyOr9999 h = (case latency h of None \<Rightarrow> 9999 | Some n \<Rightarrow> if n = 0 then 9999 else int n)"

text \<open>The comparator passed to \<open>results.sort\<close>.\<close>

definition compareGateways :: "ranked \<Rightarrow> ranked \<Rightarrow> int" where
  "compareGateways a b =
     (if healthy (snd a) \<and> \<not> healthy (snd b) then -1
      else if \<not> healthy (snd a) \<and> healthy (snd b) then 1
      else if healthy (snd a) \<and> healthy (snd b) then latencyOr9999 (snd a) - latencyOr9999 (snd b)
      else priority (fst a) - priority (fst b))"

text \<open>
  \<open>Array.prototype.sort\<close> with a comparator is a stable sort (ECMAScript 2019): elements
  the comparator ranks equal keep their order. With a comparator that is a consistent
  ordering, as this one is, the result does not depend on the engine's algorithm; it is
  written here as an insertion sort.
\<close>

fun insort_cmp :: "('a \<Rightarrow> 'a \<Rightarrow> int) \<Rightarrow> 'a \<Rightarrow> 'a list \<Rightarrow> 'a list" where
  "insort_cmp c x [] = [x]"
| "insort_cmp c x (y # ys) = (if c x y \<le> 0 then x # y # ys else y # insort_cmp c x ys)"

definition sort_cmp :: "('a \<Rightarrow> 'a \<Rightarrow> int) \<Rightarrow> 'a list \<Rightarrow> 'a list" where
  "sort_cmp c xs = foldr (insort_cmp c) xs []"

text \<open>
  \<open>getGatewaysWithHealth()\<close>, given the status \<open>checkGatewayHealth\<close> resolves to for each
  configured gateway (by gateway id).
\<close>

definition getGatewaysWithHealth :: "(string \<Rightarrow> health) \<Rightarrow> ranked list" where
  "getGatewaysWithHealth hs = sort_cmp compareGateways (map (\<lambda>g. (g, hs (gw_id g))) GATEWAYS)"

text \<open>
  What \<open>fetch\<close> does for one URL: it resolves to a response, whose \<open>ok\<close> flag is false for
  an HTTP error status, or it rejects; an attempt cut off by the timeout rejects with the
  abort error.
\<close>

record response =
  ok :: bool
  body :: string

datatype fetch_outcome = Resolved response | Rejected js_error

record fetched =
  f_response :: response
  f_gateway :: string
  f_url :: string

text \<open>
  The loop of \<open>fetchWithFailover\<close> threads \<open>lastError\<close>; \<open>warned\<close> collects the
  \<open>console.warn\<close> lines (gateway name and error message) and \<open>requested\<close> the URLs
  passed to \<open>fetch\<close>, in order.
\<close>

record failover_state =
  lastError :: "js_error option"
  warned :: "(string \<times> string) list"
  requested :: "string list"

fun tryGateways ::
  "(string \<Rightarrow> fetch_outcome) \<Rightarrow> string \<Rightarrow> ranked list \<Rightarrow> failover_state
     \<Rightarrow> (js_error + fetched) \<times> failover_state" where
  "tryGateways net c [] st =
     (Inl (case lastError st of Some e \<Rightarrow> e | None \<Rightarrow> Error ''All gateways failed''), st)"
| "tryGateways net c (g # gs) st =
     (let u = gw_url (fst g) @ c;
          st1 = st\<lparr>requested := requested st @ [u]\<rparr>
      in case net u of
           Resolved r \<Rightarrow>
             if ok r then (Inr \<lparr>f_response = r, f_gateway = gw_name (fst g), f_url = u\<rparr>, st1)
             else tryGateways net c gs st1
         | Rejected e \<Rightarrow>
             tryGateways net c gs
               (st1\<lparr>lastError := Some e, warned := warned st1 @ [(gw_name (fst g), errorMessage e)]\<rparr>))"

definition gatewaysToTry :: "ranked list \<Rightarrow> ranked list" where
  "gatewaysToTry gateways =
     (let healthyGateways = filter (\<lambda>g. healthy (snd g)) gateways
      in if length healthyGateways > 0 then healthyGateways else take 3 gateways)"

definition fetchWithFailover ::
  "(string \<Rightarrow> health) \<Rightarrow> (string \<Rightarrow> fetch_outcome) \<Rightarrow> string \<Rightarrow> (js_error + fetched) \<times> failover_state" where
  "fetchWithFailover hs net c =
     tryGateways net c (gatewaysToTry (getGatewaysWithHealth hs))
       \<lparr>lastError = None, warned = [], requested = []\<rparr>"

text \<open>
  Names for stating what the loop does: the URL an attempt requests, whether the attempt
  fails (the request rejects, or resolves to a response that is not ok), and the
  rejections among a list of attempts, in order.
\<close>

definition attemptUrl :: "string \<Rightarrow> ranked \<Rightarrow> string" where
  "attemptUrl c g = gw_url (fst g) @ c"

definition attemptFails :: "(string \<Rightarrow> fetch_outcome) \<Rightarrow> string \<Rightarrow> ranked \<Rightarrow> bool" where
  "attemptFails net c g = (case net (attemptUrl c g) of Resolved r \<Rightarrow> \<not> ok r | Rejected e \<Rightarrow> True)"

definition rejections :: "(string \<Rightarrow> fetch_outcome) \<Rightarrow> string \<Rightarrow> ranked list \<Rightarrow> (string \<times> js_error) list" where
  "rejections net c gs =
     concat (map (\<lambda>g. case net (attemptUrl c g) of Rejected e \<Rightarrow> [(gw_name (fst g), e)] | Resolved r \<Rightarrow> []) gs)"

section \<open>Example inputs\<close>

definition example_webhooks :: "jsobj list" where
  "example_webhooks =
     [[''id'' \<mapsto> JStr ''wh-1'', ''name'' \<mapsto> JStr ''first'', ''enabled'' \<mapsto> JBool True,
       ''successCount'' \<mapsto> JNum 3],
      [''id'' \<mapsto> JStr ''wh-2'', ''name'' \<mapsto> JStr ''second'', ''enabled'' \<mapsto> JBool True,
       ''successCount'' \<mapsto> JNum 7]]"

definition example_updates :: jsobj where
  "example_updates = [''enabled'' \<mapsto> JBool False, ''id'' \<mapsto> JStr ''wh-9'', ''successCount'' \<mapsto> JNum 0]"

definition example_env :: call_env where
  "example_env = \<lparr>msg_sender = 7, block_timestamp = 1700000000, block_number = 100\<rparr>"

definition example_proof1 :: Proof where
  "example_proof1 = \<lparr>sha256Hash = 1, cid = ''bafy-one'', proofId = ''PV-1'', registrant = 7,
     timestamp = 1700000000, blockNumber = 100, dealIds = [], storageProvider = ''f01234''\<rparr>"

definition example_registry1 :: registry where
  "example_registry1 = (deploy 7)\<lparr>proofs := (\<lambda>_. zeroProof)(''PV-1'' := example_proof1),
      hashToProofId := (\<lambda>_. [])(1 := ''PV-1''),
      cidToProofId := (\<lambda>_. [])(''bafy-one'' := ''PV-1''),
      totalProofs := 1,
      events := [ProofRegistered ''PV-1'' 1 ''bafy-one'' 7 1700000000 100]\<rparr>"

text \<open>SHA-256 of the empty file, as \<open>hashBuffer\<close> renders it and in upper case.\<close>

definition example_digest :: string where
  "example_digest = ''e3b0c44298fc1c149afbf4c8996fb92427ae41e4649b934ca495991b7852b855''"

definition example_digest_upper :: string where
  "example_digest_upper = ''E3B0C44298FC1C149AFBF4C8996FB92427AE41E4649B934CA495991B7852B855''"

text \<open>
  The 32 digest bytes of the empty file, a store holding one proof of it as \<open>createProof\<close>
  saves it, and a lookup by id for the examples.
\<close>

definition example_digest_bytes :: "8 word list" where
  "example_digest_bytes =
     [227, 176, 196, 66, 152, 252, 28, 20, 154, 251, 244, 200, 153, 111, 185, 36,
      39, 174, 65, 228, 100, 155, 147, 76, 164, 149, 153, 27, 120, 82, 184, 85]"

definition example_saved :: "jsobj list" where
  "example_saved = [[''proofId'' \<mapsto> JStr ''PV-1'', ''sha256Hash'' \<mapsto> JStr example_digest]]"

definition example_lookup :: "jsobj list \<Rightarrow> string \<Rightarrow> jsobj option" where
  "example_lookup saved i = List.find (\<lambda>p. p ''proofId'' = Some (JStr i)) saved"

definition other_digest_upper :: string where
  "other_digest_upper = ''00000000000000000000000000000000000000000000000000000000000000FF''"

definition example_call1 :: deal_call where
  "example_call1 = \<lparr>t_call = 0, outcome = NetworkFailure, t_sim = 0, t_write = 0\<rparr>"

definition example_call2 :: deal_call where
  "example_call2 = \<lparr>t_call = 300000, outcome = NetworkFailure, t_sim = 300000, t_write = 300000\<rparr>"

definition example_body :: w3s_data where
  "example_body =
     \<lparr>w_deals = Some [\<lparr>w_dealId = ''42'', w_storageProvider = ''f01234'', w_status = Some ''Active'',
          w_pieceCid = ''baga-piece'', w_dealActivation = 0, w_dealExpiration = 1000, w_created = 0\<rparr>],
      w_pins = Some 1\<rparr>"

definition example_cache0 :: deal_cache where
  "example_cache0 = [(''old'', \<lparr>ce_data = simulateDealInfo 0 ''old'', ce_timestamp = - 700000\<rparr>)]"

definition example_cache1 :: deal_cache where
  "example_cache1 = [(''a'', \<lparr>ce_data = parseW3SResponse example_body, ce_timestamp = 100\<rparr>)]"

definition example_query0 :: deal_call where
  "example_query0 = \<lparr>t_call = 0, outcome = Body example_body, t_sim = 100, t_write = 100\<rparr>"

definition example_query1 :: deal_call where
  "example_query1 = \<lparr>t_call = 240000, outcome = HttpError 404, t_sim = 240050, t_write = 240050\<rparr>"

definition example_query2 :: deal_call where
  "example_query2 = \<lparr>t_call = 360000, outcome = HttpError 404, t_sim = 360050, t_write = 360050\<rparr>"

text \<open>
  Health assignments and networks for the gateways: three healthy gateways, of which the
  third answers while the first two reject, or answer with an HTTP error, or nothing
  answers; and two healthy gateways of which one answered within half a millisecond.
\<close>

definition example_health3 :: "string \<Rightarrow> health" where
  "example_health3 i =
     (if i = ''w3s'' then \<lparr>healthy = True, latency = Some 50, herror = None\<rparr>
      else if i = ''dweb'' then \<lparr>healthy = True, latency = Some 200, herror = None\<rparr>
      else if i = ''ipfs-io'' then \<lparr>healthy = True, latency = Some 300, herror = None\<rparr>
      else \<lparr>healthy = False, latency = None, herror = Some ''Timeout''\<rparr>)"

definition example_ok :: response where
  "example_ok = \<lparr>ok = True, body = ''payload''\<rparr>"

definition net_rejecting :: "string \<Rightarrow> fetch_outcome" where
  "net_rejecting u =
     (if u = ''https://ipfs.io/ipfs/bafy'' then Resolved example_ok
      else Rejected (Error ''Failed to fetch''))"

definition net_http_errors :: "string \<Rightarrow> fetch_outcome" where
  "net_http_errors u =
     (if u = ''https://ipfs.io/ipfs/bafy'' then Resolved example_ok
      else Resolved \<lparr>ok = False, body = ''504 Gateway Timeout''\<rparr>)"

definition net_down :: "string \<Rightarrow> fetch_outcome" where
  "net_down u = Rejected (Error ''Failed to fetch'')"

definition example_health :: "string \<Rightarrow> health" where
  "example_health i =
     (if i = ''w3s'' then \<lparr>healthy = True, latency = Some 0, herror = None\<rparr>
      else if i = ''dweb'' then \<lparr>healthy = True, latency = Some 200, herror = None\<rparr>
      else \<lparr>healthy = False, latency = None, herror = Some ''Timeout''\<rparr>)"

text \<open>
  Two more digests, and four registration requests: a first one, one with the same digest
  in upper case, one with the first id again, and one with a new id and digest and the
  first locator.
\<close>

definition zero_digest :: string where
  "zero_digest = ''0000000000000000000000000000000000000000000000000000000000000000''"

definition other_digest :: string where
  "other_digest = ''00000000000000000000000000000000000000000000000000000000000000ff''"

definition example_calls :: "reg_call list" where
  "example_calls =
     [\<lparr>rc_proofId = ''PV-1'', rc_hash = example_digest, rc_cid = ''bafy-one'', rc_provider = ''f01234'',
       rc_env = example_env, rc_txHash = ''0xaa'', rc_now = 1700000001\<rparr>,
      \<lparr>rc_proofId = ''PV-2'', rc_hash = example_digest_upper, rc_cid = ''bafy-two'', rc_provider = [],
       rc_env = example_env, rc_txHash = ''0xbb'', rc_now = 1700000002\<rparr>,
      \<lparr>rc_proofId = ''PV-1'', rc_hash = other_digest, rc_cid = ''bafy-three'', rc_provider = [],
       rc_env = example_env, rc_txHash = ''0xcc'', rc_now = 1700000003\<rparr>,
      \<lparr>rc_proofId = ''PV-3'', rc_hash = other_digest, rc_cid = ''bafy-one'', rc_provider = [],
       rc_env = example_env, rc_txHash = ''0xdd'', rc_now = 1700000004\<rparr>]"



section \<open>The invariant of the contract\<close>

text \<open>
  Every proof that exists (its \<open>timestamp\<close> is not zero, the test the contract uses) has
  an id that is not empty and a hash that is not zero, and the hash index leads from its
  hash back to it.
\<close>

definition reg_inv :: "registry \<Rightarrow> bool" where
  "reg_inv s =
     (\<forall>p. timestamp (proofs s p) \<noteq> 0 \<longrightarrow>
        p \<noteq> [] \<and> sha256Hash (proofs s p) \<noteq> 0 \<and> hashToProofId s (sha256Hash (proofs s p)) = p)"

section \<open>Properties of the deal health score\<close>



section \<open>Properties of the webhook store\<close>

lemma findIndex_range:
  "findIndex P xs = -1 \<or> (0 \<le> findIndex P xs \<and> findIndex P xs < int (length xs))"
  by (induction xs) (auto simp: Let_def)

lemma findIndex_none: "findIndex P xs = -1 \<longleftrightarrow> (\<forall>x \<in> set xs. \<not> P x)"
proof (induction xs)
  case Nil
  show ?case by simp
next
  case (Cons x xs)
  have "findIndex P xs = -1 \<or> 0 \<le> findIndex P xs"
    using findIndex_range [of P xs] by auto
  with Cons show ?case by (auto simp: Let_def)
qed

lemma findIndex_hit:
  "findIndex P xs \<noteq> -1 \<Longrightarrow>
     P (xs ! nat (findIndex P xs)) \<and> (\<forall>j < nat (findIndex P xs). \<not> P (xs ! j))"
proof (induction xs)
  case Nil
  then show ?case by simp
next
  case (Cons x xs)
  show ?case
  proof (cases "P x")
    case True
    then show ?thesis by simp
  next
    case False
    with Cons.prems have ne: "findIndex P xs \<noteq> -1"
      by (auto simp: Let_def split: if_splits)
    then have ge: "0 \<le> findIndex P xs"
      using findIndex_range [of P xs] by auto
    from False ne have eq: "findIndex P (x # xs) = findIndex P xs + 1"
      by (simp add: Let_def)
    from ge have n: "nat (findIndex P xs + 1) = Suc (nat (findIndex P xs))"
      by simp
    from Cons.IH [OF ne] False show ?thesis
      unfolding eq n by (auto simp: nth_Cons split: nat.splits)
  qed
qed

lemma foldl_applyUpdate_frame:
  "k \<notin> set ks \<Longrightarrow> foldl (applyUpdate u) w ks k = w k"
  by (induction ks arbitrary: w) (auto simp: applyUpdate_def split: option.splits)

text \<open>
  Claim C10. \<open>updateWebhook(id, updates)\<close> changes at most the properties \<open>name\<close>, \<open>url\<close>,
  \<open>events\<close>, \<open>secret\<close> and \<open>enabled\<close> of the (first) webhook with the given id: its \<open>id\<close>,
  \<open>createdAt\<close>, \<open>lastTriggered\<close>, \<open>successCount\<close> and \<open>failCount\<close>, like every property
  outside the allowed list, and every other webhook of the store stay as they were. When
  no webhook has the id it throws "Webhook not found" and the store is unchanged.
\<close>

theorem updateWebhook_frame:
  assumes "updateWebhook ident updates webhooks = (r, webhooks')"
  shows "((\<forall>w \<in> set webhooks. w ''id'' \<noteq> Some (JStr ident)) \<longrightarrow>
            r = Inl (Error ''Webhook not found'') \<and> webhooks' = webhooks)
       \<and> ((\<exists>w \<in> set webhooks. w ''id'' = Some (JStr ident)) \<longrightarrow>
            (\<exists>i < length webhooks.
               (webhooks ! i) ''id'' = Some (JStr ident)
             \<and> (\<forall>j < i. (webhooks ! j) ''id'' \<noteq> Some (JStr ident))
             \<and> length webhooks' = length webhooks
             \<and> (\<forall>j < length webhooks. j \<noteq> i \<longrightarrow> webhooks' ! j = webhooks ! j)
             \<and> (\<forall>k. k \<notin> set allowedUpdates \<longrightarrow> (webhooks' ! i) k = (webhooks ! i) k)
             \<and> (\<forall>k \<in> {''id'', ''createdAt'', ''lastTriggered'', ''successCount'', ''failCount''}.
                   (webhooks' ! i) k = (webhooks ! i) k)
             \<and> r = Inr (webhooks' ! i)))"
proof -
  let ?P = "\<lambda>w. w ''id'' = Some (JStr ident)"
  let ?ix = "findIndex ?P webhooks"
  show ?thesis
  proof (cases "?ix = -1")
    case True
    then have none: "\<forall>w \<in> set webhooks. \<not> ?P w"
      by (simp add: findIndex_none)
    from True assms have "r = Inl (Error ''Webhook not found'')" "webhooks' = webhooks"
      by (simp_all add: updateWebhook_def)
    with none show ?thesis by blast
  next
    case False
    then have some: "\<exists>w \<in> set webhooks. ?P w"
      using findIndex_none [of ?P webhooks] by blast
    from False have rng: "0 \<le> ?ix" "?ix < int (length webhooks)"
      using findIndex_range [of ?P webhooks] by auto
    let ?i = "nat ?ix"
    let ?w = "foldl (applyUpdate updates) (webhooks ! ?i) allowedUpdates"
    from rng have i: "?i < length webhooks" by simp
    from False assms have r: "r = Inr ?w" and w': "webhooks' = webhooks[?i := ?w]"
      by (simp_all add: updateWebhook_def Let_def)
    have hit: "?P (webhooks ! ?i)" "\<forall>j < ?i. \<not> ?P (webhooks ! j)"
      using findIndex_hit [OF False] by blast+
    have fr: "\<forall>k. k \<notin> set allowedUpdates \<longrightarrow> (webhooks' ! ?i) k = (webhooks ! ?i) k"
      using i by (simp add: w' foldl_applyUpdate_frame)
    have fr2: "\<forall>k \<in> {''id'', ''createdAt'', ''lastTriggered'', ''successCount'', ''failCount''}.
                   (webhooks' ! ?i) k = (webhooks ! ?i) k"
      using fr by (simp add: allowedUpdates_def)
    have others: "\<forall>j < length webhooks. j \<noteq> ?i \<longrightarrow> webhooks' ! j = webhooks ! j"
      by (simp add: w')
    have "r = Inr (webhooks' ! ?i)" using i by (simp add: r w')
    with i hit fr fr2 others w' have
      "\<exists>i < length webhooks.
               (webhooks ! i) ''id'' = Some (JStr ident)
             \<and> (\<forall>j < i. (webhooks ! j) ''id'' \<noteq> Some (JStr ident))
             \<and> length webhooks' = length webhooks
             \<and> (\<forall>j < length webhooks. j \<noteq> i \<longrightarrow> webhooks' ! j = webhooks ! j)
             \<and> (\<forall>k. k \<notin> set allowedUpdates \<longrightarrow> (webhooks' ! i) k = (webhooks ! i) k)
             \<and> (\<forall>k \<in> {''id'', ''createdAt'', ''lastTriggered'', ''successCount'', ''failCount''}.
                   (webhooks' ! i) k = (webhooks ! i) k)
             \<and> r = Inr (webhooks' ! i)"
      by (intro exI [of _ ?i]) simp
    with some show ?thesis by blast
  qed
qed

text \<open>
  The theorem at the example store: the update of \<open>wh-2\<close> carries \<open>id\<close> and
  \<open>successCount\<close>, which are ignored, and \<open>wh-0\<close> is not in the store.
\<close>

theorem updateWebhook_frame_witness:
  "(\<exists>w \<in> set example_webhooks. w ''id'' = Some (JStr ''wh-2''))
   \<and> snd (updateWebhook ''wh-2'' example_updates example_webhooks) ! 0 = example_webhooks ! 0
   \<and> (snd (updateWebhook ''wh-2'' example_updates example_webhooks) ! 1) ''id'' = Some (JStr ''wh-2'')
   \<and> (snd (updateWebhook ''wh-2'' example_updates example_webhooks) ! 1) ''successCount'' = Some (JNum 7)
   \<and> (snd (updateWebhook ''wh-2'' example_updates example_webhooks) ! 1) ''enabled'' = Some (JBool False)
   \<and> \<not> (\<exists>w \<in> set example_webhooks. w ''id'' = Some (JStr ''wh-0''))
   \<and> updateWebhook ''wh-0'' example_updates example_webhooks
       = (Inl (Error ''Webhook not found''), example_webhooks)"
proof -
  obtain r ws where h: "updateWebhook ''wh-2'' example_updates example_webhooks = (r, ws)"
    by (cases "updateWebhook ''wh-2'' example_updates example_webhooks") auto
  obtain r0 ws0 where h0: "updateWebhook ''wh-0'' example_updates example_webhooks = (r0, ws0)"
    by (cases "updateWebhook ''wh-0'' example_updates example_webhooks") auto
  have ex: "\<exists>w \<in> set example_webhooks. w ''id'' = Some (JStr ''wh-2'')"
    by (simp add: example_webhooks_def)
  have nex: "\<forall>w \<in> set example_webhooks. w ''id'' \<noteq> Some (JStr ''wh-0'')"
    by (simp add: example_webhooks_def)
  from updateWebhook_frame [OF h0] nex have e0: "r0 = Inl (Error ''Webhook not found'')" "ws0 = example_webhooks"
    by blast+
  from updateWebhook_frame [OF h] ex obtain i where i:
    "i < length example_webhooks" "(example_webhooks ! i) ''id'' = Some (JStr ''wh-2'')"
    "\<forall>j < length example_webhooks. j \<noteq> i \<longrightarrow> ws ! j = example_webhooks ! j"
    "\<forall>k \<in> {''id'', ''createdAt'', ''lastTriggered'', ''successCount'', ''failCount''}.
        (ws ! i) k = (example_webhooks ! i) k"
    by blast
  have i1: "i = 1"
    using i(1,2) by (cases i) (simp_all add: example_webhooks_def)
  have a: "ws ! 0 = example_webhooks ! 0"
    using i(3) i1 by (simp add: example_webhooks_def)
  have b: "(ws ! 1) ''id'' = Some (JStr ''wh-2'')" "(ws ! 1) ''successCount'' = Some (JNum 7)"
    using i(4) i1 by (simp_all add: example_webhooks_def)
  have c: "(ws ! 1) ''enabled'' = Some (JBool False)"
    using h by (auto simp: updateWebhook_def example_webhooks_def example_updates_def
        allowedUpdates_def applyUpdate_def Let_def)
  from ex nex a b c h h0 e0 show ?thesis by simp
qed

section \<open>Properties of the ledger contract\<close>

lemma example_register1:
  "registerProof example_env (deploy 7) ''PV-1'' 1 ''bafy-one'' ''f01234'' = Inr example_registry1"
  by (simp add: registerProof_def deploy_def example_env_def example_registry1_def
      example_proof1_def zeroProof_def)

lemma registerProof_Inr:
  assumes "registerProof env s pid h c sp = Inr s'"
  shows "pid \<noteq> []" "h \<noteq> 0" "c \<noteq> []" "timestamp (proofs s pid) = 0" "hashToProofId s h = []"
    "totalProofs s + 1 \<noteq> 0"
    "s' = s\<lparr>proofs := (proofs s)(pid := \<lparr>sha256Hash = h, cid = c, proofId = pid, registrant = msg_sender env,
                         timestamp = block_timestamp env, blockNumber = block_number env,
                         dealIds = [], storageProvider = sp\<rparr>),
                  hashToProofId := (hashToProofId s)(h := pid),
                  cidToProofId := (cidToProofId s)(c := pid),
                  totalProofs := totalProofs s + 1,
                  events := events s @ [ProofRegistered pid h c (msg_sender env)
                                          (block_timestamp env) (block_number env)]\<rparr>"
  using assms unfolding registerProof_def Let_def
  by (simp_all split: if_splits)

lemma unat_succ_no_wrap: "(w :: 'a::len word) + 1 \<noteq> 0 \<Longrightarrow> unat (w + 1) = unat w + 1"
  using unatSuc [of w] by (simp add: add.commute)

text \<open>
  Claim C2. Whenever \<open>registerProof(proofId, hash, cid, provider)\<close> succeeds,
  \<open>getProofByHash(hash)\<close> and \<open>getProofByCid(cid)\<close> afterwards both return the record just
  registered, the counter \<open>totalProofs\<close> has grown by one (without wrapping), and one
  \<open>ProofRegistered\<close> event has been emitted.
\<close>

theorem registerProof_lookup:
  assumes "registerProof env s pid h c sp = Inr s'"
  shows "getProofByHash s' h = Inr \<lparr>sha256Hash = h, cid = c, proofId = pid, registrant = msg_sender env,
                         timestamp = block_timestamp env, blockNumber = block_number env,
                         dealIds = [], storageProvider = sp\<rparr>
   \<and> getProofByCid s' c = Inr \<lparr>sha256Hash = h, cid = c, proofId = pid, registrant = msg_sender env,
                         timestamp = block_timestamp env, blockNumber = block_number env,
                         dealIds = [], storageProvider = sp\<rparr>
   \<and> totalProofs s' = totalProofs s + 1
   \<and> unat (totalProofs s') = unat (totalProofs s) + 1
   \<and> events s' = events s @ [ProofRegistered pid h c (msg_sender env) (block_timestamp env) (block_number env)]"
proof -
  note r = registerProof_Inr [OF assms]
  have u: "unat (totalProofs s + 1) = unat (totalProofs s) + 1"
    using r(6) by (rule unat_succ_no_wrap)
  have a: "getProofByHash s' h = Inr \<lparr>sha256Hash = h, cid = c, proofId = pid, registrant = msg_sender env,
                         timestamp = block_timestamp env, blockNumber = block_number env,
                         dealIds = [], storageProvider = sp\<rparr>"
    using r(1) by (simp add: r(7) getProofByHash_def)
  have b: "getProofByCid s' c = Inr \<lparr>sha256Hash = h, cid = c, proofId = pid, registrant = msg_sender env,
                         timestamp = block_timestamp env, blockNumber = block_number env,
                         dealIds = [], storageProvider = sp\<rparr>"
    using r(1) by (simp add: r(7) getProofByCid_def)
  have c: "totalProofs s' = totalProofs s + 1" by (simp add: r(7))
  have d: "events s' = events s @ [ProofRegistered pid h c (msg_sender env) (block_timestamp env) (block_number env)]"
    by (simp add: r(7))
  from a b c d u show ?thesis by simp
qed

text \<open>The theorem at the first registration on a freshly deployed contract.\<close>

theorem registerProof_lookup_witness:
  "registerProof example_env (deploy 7) ''PV-1'' 1 ''bafy-one'' ''f01234'' = Inr example_registry1
   \<and> getProofByHash example_registry1 1 = Inr example_proof1
   \<and> getProofByCid example_registry1 ''bafy-one'' = Inr example_proof1
   \<and> totalProofs example_registry1 = 1
   \<and> events example_registry1 = [ProofRegistered ''PV-1'' 1 ''bafy-one'' 7 1700000000 100]"
  using registerProof_lookup [OF example_register1] example_register1
  by (simp add: example_env_def example_proof1_def deploy_def)

lemma reg_inv_deploy: "reg_inv (deploy a)"
  by (simp add: reg_inv_def deploy_def zeroProof_def)

lemma reg_inv_register:
  assumes "reg_inv s" and "registerProof env s pid h c sp = Inr s'"
  shows "reg_inv s'"
proof -
  note r = registerProof_Inr [OF assms(2)]
  show ?thesis
    using assms(1) r(1,2,5) unfolding reg_inv_def r(7) by auto
qed

lemma reg_inv_link:
  assumes "reg_inv s" and "linkDeal env s pid did prov se ee = Inr s'"
  shows "reg_inv s'"
  using assms
  by (auto simp: reg_inv_def linkDeal_def Let_def split: if_splits)

lemma reg_inv_update:
  assumes "reg_inv s" and "updateDealStatus env s pid i act = Inr s'"
  shows "reg_inv s'"
  using assms
  by (auto simp: reg_inv_def updateDealStatus_def Let_def split: if_splits)

lemma reachable_inv: "reachable s \<Longrightarrow> reg_inv s"
proof (induction rule: reachable.induct)
  case (reach_deploy a)
  show ?case by (rule reg_inv_deploy)
next
  case (reach_register s env pid h c sp s')
  then show ?case using reg_inv_register by blast
next
  case (reach_link s env pid did prov se ee s')
  then show ?case using reg_inv_link by blast
next
  case (reach_update s env pid i act s')
  then show ?case using reg_inv_update by blast
next
  case (reach_owner s a)
  then show ?case by (simp add: reg_inv_def)
qed

lemma registerProof_bound_hash:
  assumes "hashToProofId s h \<noteq> []" "h \<noteq> 0"
  shows "\<exists>e. registerProof env s pid h c sp = Inl e"
    and "pid \<noteq> [] \<Longrightarrow> c \<noteq> [] \<Longrightarrow> timestamp (proofs s pid) = 0 \<Longrightarrow>
           registerProof env s pid h c sp = Inl (Revert ''Hash already registered'')"
  using assms by (simp_all add: registerProof_def)

lemma registerProof_succeeds:
  assumes "pid \<noteq> []" "h \<noteq> 0" "c \<noteq> []" "timestamp (proofs s pid) = 0" "hashToProofId s h = []"
    "totalProofs s + 1 \<noteq> 0"
  shows "\<exists>s'. registerProof env s pid h c sp = Inr s' \<and> cidToProofId s' c = pid"
  using assms by (simp add: registerProof_def)

text \<open>
  Claim C1, as amended. In every reachable state, a call of \<open>registerProof\<close> with the
  hash of an existing proof fails, whatever the locator, and with "Hash already
  registered" when the id is fresh and id and locator are not empty; so no two existing
  proofs share a hash. The locator is not checked: a call with a fresh id and a fresh
  hash succeeds whether or not the locator is already bound, and binds the locator to the
  new proof.
\<close>

theorem registerProof_hash_unique:
  assumes "reachable s"
  shows "(\<forall>p. timestamp (proofs s p) \<noteq> 0 \<longrightarrow>
            (\<forall>env pid c sp. \<exists>e. registerProof env s pid (sha256Hash (proofs s p)) c sp = Inl e)
          \<and> (\<forall>env pid c sp. pid \<noteq> [] \<and> c \<noteq> [] \<and> timestamp (proofs s pid) = 0 \<longrightarrow>
                registerProof env s pid (sha256Hash (proofs s p)) c sp
                  = Inl (Revert ''Hash already registered'')))
       \<and> (\<forall>p1 p2. timestamp (proofs s p1) \<noteq> 0 \<and> timestamp (proofs s p2) \<noteq> 0
             \<and> sha256Hash (proofs s p1) = sha256Hash (proofs s p2) \<longrightarrow> p1 = p2)
       \<and> (\<forall>env pid h c sp. pid \<noteq> [] \<and> h \<noteq> 0 \<and> c \<noteq> [] \<and> timestamp (proofs s pid) = 0
             \<and> hashToProofId s h = [] \<and> totalProofs s + 1 \<noteq> 0 \<longrightarrow>
             (\<exists>s'. registerProof env s pid h c sp = Inr s' \<and> cidToProofId s' c = pid))"
proof -
  have inv: "reg_inv s" using assms by (rule reachable_inv)
  have a: "\<forall>p. timestamp (proofs s p) \<noteq> 0 \<longrightarrow>
            (\<forall>env pid c sp. \<exists>e. registerProof env s pid (sha256Hash (proofs s p)) c sp = Inl e)
          \<and> (\<forall>env pid c sp. pid \<noteq> [] \<and> c \<noteq> [] \<and> timestamp (proofs s pid) = 0 \<longrightarrow>
                registerProof env s pid (sha256Hash (proofs s p)) c sp
                  = Inl (Revert ''Hash already registered''))"
  proof (intro allI impI)
    fix p assume p: "timestamp (proofs s p) \<noteq> 0"
    with inv have b: "hashToProofId s (sha256Hash (proofs s p)) \<noteq> []" "sha256Hash (proofs s p) \<noteq> 0"
      by (auto simp: reg_inv_def)
    show "(\<forall>env pid c sp. \<exists>e. registerProof env s pid (sha256Hash (proofs s p)) c sp = Inl e)
          \<and> (\<forall>env pid c sp. pid \<noteq> [] \<and> c \<noteq> [] \<and> timestamp (proofs s pid) = 0 \<longrightarrow>
                registerProof env s pid (sha256Hash (proofs s p)) c sp
                  = Inl (Revert ''Hash already registered''))"
      using registerProof_bound_hash [OF b] by blast
  qed
  have b: "\<forall>p1 p2. timestamp (proofs s p1) \<noteq> 0 \<and> timestamp (proofs s p2) \<noteq> 0
             \<and> sha256Hash (proofs s p1) = sha256Hash (proofs s p2) \<longrightarrow> p1 = p2"
    using inv unfolding reg_inv_def by metis
  have c: "\<forall>env pid h c sp. pid \<noteq> [] \<and> h \<noteq> 0 \<and> c \<noteq> [] \<and> timestamp (proofs s pid) = 0
             \<and> hashToProofId s h = [] \<and> totalProofs s + 1 \<noteq> 0 \<longrightarrow>
             (\<exists>s'. registerProof env s pid h c sp = Inr s' \<and> cidToProofId s' c = pid)"
    using registerProof_succeeds by blast
  from a b c show ?thesis by blast
qed

lemma example_registry1_reachable: "reachable example_registry1"
  using reach_register [OF reach_deploy example_register1] .

text \<open>
  The theorem at the state after one registration: the hash \<open>1\<close> of \<open>PV-1\<close> is refused
  with a new locator, and the locator of \<open>PV-1\<close> is accepted with a new hash.
\<close>

theorem registerProof_hash_unique_witness:
  "reachable example_registry1
   \<and> timestamp (proofs example_registry1 ''PV-1'') \<noteq> 0
   \<and> sha256Hash (proofs example_registry1 ''PV-1'') = 1
   \<and> registerProof example_env example_registry1 ''PV-2'' 1 ''bafy-two'' []
        = Inl (Revert ''Hash already registered'')
   \<and> (\<exists>s'. registerProof example_env example_registry1 ''PV-2'' 2 ''bafy-one'' [] = Inr s'
         \<and> cidToProofId s' ''bafy-one'' = ''PV-2'')"
proof -
  have p: "timestamp (proofs example_registry1 ''PV-1'') \<noteq> 0"
    "sha256Hash (proofs example_registry1 ''PV-1'') = 1"
    "timestamp (proofs example_registry1 ''PV-2'') = 0"
    "hashToProofId example_registry1 2 = []"
    "totalProofs example_registry1 + 1 \<noteq> 0"
    by (simp_all add: example_registry1_def example_proof1_def deploy_def zeroProof_def)
  note t = registerProof_hash_unique [OF example_registry1_reachable]
  from t p(1,3) have a: "registerProof example_env example_registry1 ''PV-2''
      (sha256Hash (proofs example_registry1 ''PV-1'')) ''bafy-two'' [] = Inl (Revert ''Hash already registered'')"
    by simp
  from t p(3,4,5) have b: "\<exists>s'. registerProof example_env example_registry1 ''PV-2'' 2 ''bafy-one'' [] = Inr s'
         \<and> cidToProofId s' ''bafy-one'' = ''PV-2''"
    by simp
  from a b p example_registry1_reachable show ?thesis by simp
qed

text \<open>
  Claim C1 as stated fails for the locator: after \<open>PV-1\<close> is registered with locator
  \<open>bafy-one\<close>, registering \<open>PV-2\<close> with the same locator and another hash succeeds, and
  two existing proofs carry one locator.
\<close>

theorem registerProof_cid_reuse_counterexample:
  "reachable example_registry1
   \<and> cidToProofId example_registry1 ''bafy-one'' = ''PV-1''
   \<and> timestamp (proofs example_registry1 ''PV-1'') \<noteq> 0
   \<and> cid (proofs example_registry1 ''PV-1'') = ''bafy-one''
   \<and> (\<exists>s'. registerProof example_env example_registry1 ''PV-2'' 2 ''bafy-one'' [] = Inr s'
         \<and> timestamp (proofs s' ''PV-1'') \<noteq> 0 \<and> timestamp (proofs s' ''PV-2'') \<noteq> 0
         \<and> cid (proofs s' ''PV-1'') = cid (proofs s' ''PV-2''))"
  using example_registry1_reachable
  by (simp add: registerProof_def example_registry1_def example_proof1_def example_env_def
      deploy_def zeroProof_def)

section \<open>Properties of the simulated deals\<close>

lemma simulateDealInfo_shift:
  "simulateDealInfo now2 c = shiftInfo (now2 - now1) (simulateDealInfo now1 c)"
  by (simp add: simulateDealInfo_def shiftInfo_def shiftDeal_def Let_def case_prod_unfold)

lemma fetchDealFromW3S_fallback:
  assumes "oc = NetworkFailure \<or> oc = BadBody \<or> (\<exists>st. oc = HttpError st \<and> st \<noteq> 404)"
  shows "fetchDealFromW3S oc now c = simulateDealInfo now c"
  using assms by (auto simp: fetchDealFromW3S_def)

lemma getDealInfo_miss:
  assumes "c \<noteq> []" "getCachedDeal (t_call k) cache c = None"
  shows "getDealInfo k cache c =
     (fetchDealFromW3S (outcome k) (t_sim k) c,
      cacheDeal (t_write k) cache c (fetchDealFromW3S (outcome k) (t_sim k) c), 1)"
  using assms by (simp add: getDealInfo_def Let_def)

lemma getDealInfo_hit:
  assumes "c \<noteq> []" "getCachedDeal (t_call k) cache c = Some d"
  shows "getDealInfo k cache c = (d, cache, 0)"
  using assms by (simp add: getDealInfo_def)

lemma dealsOf_simulate_len:
  "length (dealsOf (simulateDealInfo now c)) = (if cidHash c mod 3 = 0 then 0 else cidHash c mod 3 + 1)"
  by (simp add: simulateDealInfo_def dealsOf_def Let_def)

text \<open>
  Claim C9, as amended. When the status query fails other than with 404 (the request
  fails, the body does not parse, or the status is another error), a \<open>getDealInfo\<close> call
  that misses the cache returns \<open>simulateDealInfo\<close> of the locator. Two simulations of one
  locator, taken at the clock readings \<open>now1\<close> and \<open>now2\<close>, have the same status, deal ids,
  providers and piece locators, and the same activation and expiration offsets from the
  clock reading (so windows of the same length); their instants differ by exactly
  \<open>now2 - now1\<close>, since each is computed from \<open>Date.now()\<close>.
\<close>

theorem simulateDealInfo_reproducible:
  "((c \<noteq> [] \<and> getCachedDeal (t_call k) cache c = None
      \<and> (outcome k = NetworkFailure \<or> outcome k = BadBody \<or> (\<exists>st. outcome k = HttpError st \<and> st \<noteq> 404)))
     \<longrightarrow> fst (getDealInfo k cache c) = simulateDealInfo (t_sim k) c)
   \<and> simulateDealInfo now2 c = shiftInfo (now2 - now1) (simulateDealInfo now1 c)
   \<and> status (simulateDealInfo now2 c) = status (simulateDealInfo now1 c)
   \<and> map provider (dealsOf (simulateDealInfo now2 c)) = map provider (dealsOf (simulateDealInfo now1 c))
   \<and> map dealId (dealsOf (simulateDealInfo now2 c)) = map dealId (dealsOf (simulateDealInfo now1 c))
   \<and> map pieceCid (dealsOf (simulateDealInfo now2 c)) = map pieceCid (dealsOf (simulateDealInfo now1 c))
   \<and> map (\<lambda>d. expiration d - activation d) (dealsOf (simulateDealInfo now2 c))
       = map (\<lambda>d. expiration d - activation d) (dealsOf (simulateDealInfo now1 c))
   \<and> map (\<lambda>d. activation d - now2) (dealsOf (simulateDealInfo now2 c))
       = map (\<lambda>d. activation d - now1) (dealsOf (simulateDealInfo now1 c))
   \<and> map (\<lambda>d. expiration d - now2) (dealsOf (simulateDealInfo now2 c))
       = map (\<lambda>d. expiration d - now1) (dealsOf (simulateDealInfo now1 c))"
proof -
  have a: "(c \<noteq> [] \<and> getCachedDeal (t_call k) cache c = None
      \<and> (outcome k = NetworkFailure \<or> outcome k = BadBody \<or> (\<exists>st. outcome k = HttpError st \<and> st \<noteq> 404)))
     \<longrightarrow> fst (getDealInfo k cache c) = simulateDealInfo (t_sim k) c"
    by (auto simp: getDealInfo_miss fetchDealFromW3S_fallback)
  note sh = simulateDealInfo_shift [of now2 c now1]
  have b: "status (simulateDealInfo now2 c) = status (simulateDealInfo now1 c)"
    by (subst sh) (simp add: shiftInfo_def)
  have d: "dealsOf (simulateDealInfo now2 c) = map (shiftDeal (now2 - now1)) (dealsOf (simulateDealInfo now1 c))"
    by (subst sh) (simp add: shiftInfo_def dealsOf_def split: option.splits)
  have e: "map provider (dealsOf (simulateDealInfo now2 c)) = map provider (dealsOf (simulateDealInfo now1 c))"
    "map dealId (dealsOf (simulateDealInfo now2 c)) = map dealId (dealsOf (simulateDealInfo now1 c))"
    "map pieceCid (dealsOf (simulateDealInfo now2 c)) = map pieceCid (dealsOf (simulateDealInfo now1 c))"
    "map (\<lambda>d. expiration d - activation d) (dealsOf (simulateDealInfo now2 c))
       = map (\<lambda>d. expiration d - activation d) (dealsOf (simulateDealInfo now1 c))"
    "map (\<lambda>d. activation d - now2) (dealsOf (simulateDealInfo now2 c))
       = map (\<lambda>d. activation d - now1) (dealsOf (simulateDealInfo now1 c))"
    "map (\<lambda>d. expiration d - now2) (dealsOf (simulateDealInfo now2 c))
       = map (\<lambda>d. expiration d - now1) (dealsOf (simulateDealInfo now1 c))"
    unfolding d by (simp_all add: shiftDeal_def o_def)
  from a sh b e show ?thesis by blast
qed

text \<open>
  The theorem for the locator \<open>a\<close> (code-unit sum 97, two simulated deals), queried on an
  empty cache while the network is down.
\<close>

theorem simulateDealInfo_reproducible_witness:
  "''a'' \<noteq> [] \<and> getCachedDeal (t_call example_call1) [] ''a'' = None
   \<and> outcome example_call1 = NetworkFailure
   \<and> fst (getDealInfo example_call1 [] ''a'') = simulateDealInfo 0 ''a''
   \<and> map provider (dealsOf (simulateDealInfo 0 ''a'')) = [''f01234'', ''f05678'']
   \<and> map provider (dealsOf (simulateDealInfo 300000 ''a'')) = [''f01234'', ''f05678'']"
proof -
  have h: "''a'' \<noteq> []" "getCachedDeal (t_call example_call1) [] ''a'' = None"
    "outcome example_call1 = NetworkFailure"
    by (simp_all add: getCachedDeal_def example_call1_def)
  have p: "map provider (dealsOf (simulateDealInfo 0 ''a'')) = [''f01234'', ''f05678'']"
    by (simp add: simulateDealInfo_def dealsOf_def cidHash_def Let_def)
  note t = simulateDealInfo_reproducible [of "''a''" example_call1 "[]" 300000 0]
  from t h have a: "fst (getDealInfo example_call1 [] ''a'') = simulateDealInfo (t_sim example_call1) ''a''"
    by blast
  from t have b: "map provider (dealsOf (simulateDealInfo 300000 ''a''))
      = map provider (dealsOf (simulateDealInfo 0 ''a''))"
    by blast
  have ts: "t_sim example_call1 = 0" by (simp add: example_call1_def)
  from h a b p ts show ?thesis by simp
qed

text \<open>
  Claim C9 as stated fails for the instants: two fallback calls for the locator \<open>a\<close>, five
  minutes apart, return simulated deals with the same providers and different activation
  and expiration instants.
\<close>

theorem simulateDealInfo_clock_counterexample:
  "fst (getDealInfo example_call1 [] ''a'') = simulateDealInfo 0 ''a''
   \<and> fst (getDealInfo example_call2 (fst (snd (getDealInfo example_call1 [] ''a''))) ''a'')
       = simulateDealInfo 300000 ''a''
   \<and> map activation (dealsOf (simulateDealInfo 0 ''a'')) = [- 2592000000, - 3456000000]
   \<and> map activation (dealsOf (simulateDealInfo 300000 ''a'')) = [- 2591700000, - 3455700000]
   \<and> map expiration (dealsOf (simulateDealInfo 0 ''a'')) = [15552000000, 12960000000]
   \<and> map expiration (dealsOf (simulateDealInfo 300000 ''a'')) = [15552300000, 12960300000]
   \<and> simulateDealInfo 0 ''a'' \<noteq> simulateDealInfo 300000 ''a''"
proof -
  have a: "map activation (dealsOf (simulateDealInfo 0 ''a'')) = [- 2592000000, - 3456000000]"
    "map activation (dealsOf (simulateDealInfo 300000 ''a'')) = [- 2591700000, - 3455700000]"
    "map expiration (dealsOf (simulateDealInfo 0 ''a'')) = [15552000000, 12960000000]"
    "map expiration (dealsOf (simulateDealInfo 300000 ''a'')) = [15552300000, 12960300000]"
    by (simp_all add: simulateDealInfo_def dealsOf_def cidHash_def Let_def dayMs_def)
  have ne: "simulateDealInfo 0 ''a'' \<noteq> simulateDealInfo 300000 ''a''"
  proof
    assume "simulateDealInfo 0 ''a'' = simulateDealInfo 300000 ''a''"
    then have "map activation (dealsOf (simulateDealInfo 0 ''a''))
        = map activation (dealsOf (simulateDealInfo 300000 ''a''))" by simp
    then show False unfolding a by simp
  qed
  have g1: "getDealInfo example_call1 [] ''a''
      = (simulateDealInfo 0 ''a'', cacheDeal 0 [] ''a'' (simulateDealInfo 0 ''a''), 1)"
    by (simp add: getDealInfo_def getCachedDeal_def example_call1_def fetchDealFromW3S_def Let_def)
  have g2: "getCachedDeal 300000 (cacheDeal 0 [] ''a'' (simulateDealInfo 0 ''a'')) ''a'' = None"
    by (simp add: getCachedDeal_def cacheDeal_def DEAL_CACHE_TTL_def)
  have g3: "fst (getDealInfo example_call2 (cacheDeal 0 [] ''a'' (simulateDealInfo 0 ''a'')) ''a'')
       = simulateDealInfo 300000 ''a''"
    using g2 by (simp add: getDealInfo_def example_call2_def fetchDealFromW3S_def Let_def)
  from a ne g1 g3 show ?thesis by simp
qed

section \<open>Properties of the deal cache\<close>

lemma filter_lookup:
  assumes "distinct (map fst xs)" and "map_of xs k = Some v"
  shows "map_of (filter P xs) k = (if P (k, v) then Some v else None)"
  using assms
proof (induction xs)
  case Nil
  then show ?case by simp
next
  case (Cons x xs)
  obtain a b where x: "x = (a, b)" by (cases x)
  from Cons.prems(1) have d: "distinct (map fst xs)" and nin: "a \<notin> fst ` set xs"
    by (auto simp: x)
  show ?case
  proof (cases "a = k")
    case True
    with Cons.prems(2) have b: "b = v" by (simp add: x)
    from nin True have "map_of xs k = None" by (simp add: map_of_eq_None_iff)
    then have "map_of (filter P xs) k = None"
      by (auto simp: map_of_eq_None_iff)
    with True b show ?thesis by (simp add: x)
  next
    case False
    with Cons.prems(2) have "map_of xs k = Some v" by (simp add: x)
    from Cons.IH [OF d this] False show ?thesis by (simp add: x)
  qed
qed

lemma cacheDeal_lookup:
  "c \<noteq> ''__proto__'' \<Longrightarrow>
     map_of (cacheDeal now cache c d) c = Some \<lparr>ce_data = d, ce_timestamp = now\<rparr>"
  by (simp add: cacheDeal_def update_conv' Let_def)

lemma cacheDeal_proto:
  "''__proto__'' \<notin> fst ` set cache \<Longrightarrow>
     map_of (cacheDeal now cache ''__proto__'' d) ''__proto__'' = None"
  by (auto simp: cacheDeal_def Let_def map_of_eq_None_iff)

text \<open>
  For the key \<open>__proto__\<close> nothing is cached: every call queries, and the cache has no
  entry for it afterwards.
\<close>

lemma getDealInfo_proto:
  assumes "''__proto__'' \<notin> fst ` set cache"
  shows "snd (snd (getDealInfo k cache ''__proto__'')) = 1"
    and "map_of (fst (snd (getDealInfo k cache ''__proto__''))) ''__proto__'' = None"
proof -
  from assms have "map_of cache ''__proto__'' = None" by (simp add: map_of_eq_None_iff)
  then have m: "getCachedDeal (t_call k) cache ''__proto__'' = None"
    by (simp add: getCachedDeal_def)
  have ne: "''__proto__'' \<noteq> []" by simp
  note g = getDealInfo_miss [OF ne m]
  show "snd (snd (getDealInfo k cache ''__proto__'')) = 1" by (simp add: g)
  show "map_of (fst (snd (getDealInfo k cache ''__proto__''))) ''__proto__'' = None"
    using cacheDeal_proto [OF assms] by (simp add: g)
qed

lemma cacheDeal_evicts:
  assumes "distinct (map fst cache)" "key \<noteq> c" "map_of cache key = Some entry"
  shows "map_of (cacheDeal now cache c d) key
     = (if now - ce_timestamp entry > DEAL_CACHE_TTL * 2 then None else Some entry)"
  using assms by (simp add: cacheDeal_def update_conv' filter_lookup Let_def)

lemma cacheDeal_distinct:
  "distinct (map fst cache) \<Longrightarrow> distinct (map fst (cacheDeal now cache c d))"
  by (simp add: cacheDeal_def distinct_update distinct_map_filter Let_def)

lemma getDealInfo_entry:
  assumes "c \<noteq> []" "c \<noteq> ''__proto__''" "getDealInfo k1 cache c = (r1, cache1, n1)"
  shows "n1 \<le> 1 \<and> (n1 = 1 \<longrightarrow> cache1 = cacheDeal (t_write k1) cache c r1)
     \<and> (\<exists>e. map_of cache1 c = Some e \<and> ce_data e = r1 \<and> (n1 = 1 \<longrightarrow> ce_timestamp e = t_write k1))"
proof (cases "getCachedDeal (t_call k1) cache c")
  case None
  from getDealInfo_miss [OF assms(1) None] assms(3) show ?thesis
    by (auto simp: cacheDeal_lookup [OF assms(2)])
next
  case (Some d)
  from getDealInfo_hit [OF assms(1) Some] assms(3) have "r1 = d" "cache1 = cache" "n1 = 0"
    by simp_all
  moreover from Some obtain e where "map_of cache c = Some e" "ce_data e = d"
    by (auto simp: getCachedDeal_def split: option.splits if_splits)
  ultimately show ?thesis by simp
qed

lemma getDealInfo_second:
  assumes "c \<noteq> []" "map_of cache1 c = Some e"
  shows "t_call k2 - ce_timestamp e < DEAL_CACHE_TTL \<Longrightarrow> getDealInfo k2 cache1 c = (ce_data e, cache1, 0)"
    and "\<not> t_call k2 - ce_timestamp e < DEAL_CACHE_TTL \<Longrightarrow> snd (snd (getDealInfo k2 cache1 c)) = 1"
  using assms by (simp_all add: getDealInfo_def getCachedDeal_def Let_def)

text \<open>
  Claim C8, as amended. After a \<open>getDealInfo\<close> call for a locator that is not empty and
  is not the property name \<open>__proto__\<close>, run to its end, the cache holds the call's result
  under the locator, written by this call if it queried (at most one query per call). A later call for the locator made less than
  five minutes after that entry was written returns the identical result, leaves the
  cache as it is and sends no query; a call made when the entry is five minutes old or
  older sends a new query. Every cache write drops the other entries that are older than
  twice the TTL and keeps the rest.
\<close>

theorem getDealInfo_cache:
  assumes "c \<noteq> []" "c \<noteq> ''__proto__''" "getDealInfo k1 cache c = (r1, cache1, n1)"
  shows "n1 \<le> 1
     \<and> (n1 = 1 \<longrightarrow> cache1 = cacheDeal (t_write k1) cache c r1)
     \<and> (\<exists>e. map_of cache1 c = Some e \<and> ce_data e = r1 \<and> (n1 = 1 \<longrightarrow> ce_timestamp e = t_write k1)
          \<and> (\<forall>k2. t_call k2 - ce_timestamp e < DEAL_CACHE_TTL \<longrightarrow>
                 getDealInfo k2 cache1 c = (r1, cache1, 0))
          \<and> (\<forall>k2. \<not> t_call k2 - ce_timestamp e < DEAL_CACHE_TTL \<longrightarrow>
                 snd (snd (getDealInfo k2 cache1 c)) = 1))
     \<and> (\<forall>now d key entry. distinct (map fst cache) \<and> key \<noteq> c \<and> map_of cache key = Some entry \<longrightarrow>
           map_of (cacheDeal now cache c d) key
             = (if now - ce_timestamp entry > DEAL_CACHE_TTL * 2 then None else Some entry))"
proof -
  from getDealInfo_entry [OF assms] obtain e where
    n: "n1 \<le> 1" "n1 = 1 \<longrightarrow> cache1 = cacheDeal (t_write k1) cache c r1" and
    e: "map_of cache1 c = Some e" "ce_data e = r1" "n1 = 1 \<longrightarrow> ce_timestamp e = t_write k1"
    by blast
  have s: "\<forall>k2. t_call k2 - ce_timestamp e < DEAL_CACHE_TTL \<longrightarrow>
                 getDealInfo k2 cache1 c = (r1, cache1, 0)"
    "\<forall>k2. \<not> t_call k2 - ce_timestamp e < DEAL_CACHE_TTL \<longrightarrow>
                 snd (snd (getDealInfo k2 cache1 c)) = 1"
    using getDealInfo_second [OF assms(1) e(1)] e(2) by blast+
  have ev: "\<forall>now d key entry. distinct (map fst cache) \<and> key \<noteq> c \<and> map_of cache key = Some entry \<longrightarrow>
           map_of (cacheDeal now cache c d) key
             = (if now - ce_timestamp entry > DEAL_CACHE_TTL * 2 then None else Some entry)"
    using cacheDeal_evicts by blast
  from n e s ev show ?thesis by blast
qed

lemma example_query0_result:
  "getDealInfo example_query0 example_cache0 ''a'' = (parseW3SResponse example_body, example_cache1, 1)"
  by (simp add: getDealInfo_def getCachedDeal_def example_query0_def example_cache0_def
      example_cache1_def fetchDealFromW3S_def cacheDeal_def DEAL_CACHE_TTL_def Let_def)

text \<open>
  The theorem on a cache with one stale entry: the first call queries and writes at
  100 ms, which evicts the stale entry; a call at 4 minutes is served from the cache, a
  call at 6 minutes queries again.
\<close>

theorem getDealInfo_cache_witness:
  "''a'' \<noteq> [] \<and> ''a'' \<noteq> ''__proto__''
   \<and> getDealInfo example_query0 example_cache0 ''a'' = (parseW3SResponse example_body, example_cache1, 1)
   \<and> getDealInfo example_query1 example_cache1 ''a'' = (parseW3SResponse example_body, example_cache1, 0)
   \<and> snd (snd (getDealInfo example_query2 example_cache1 ''a'')) = 1
   \<and> map_of example_cache0 ''old'' = Some \<lparr>ce_data = simulateDealInfo 0 ''old'', ce_timestamp = - 700000\<rparr>
   \<and> map_of (cacheDeal 100 example_cache0 ''a'' (parseW3SResponse example_body)) ''old'' = None"
proof -
  have c: "''a'' \<noteq> []" and c': "''a'' \<noteq> ''__proto__''" by simp_all
  note t = getDealInfo_cache [OF c c' example_query0_result]
  from t obtain e where e: "map_of example_cache1 ''a'' = Some e"
    "\<forall>k2. t_call k2 - ce_timestamp e < DEAL_CACHE_TTL \<longrightarrow>
        getDealInfo k2 example_cache1 ''a'' = (parseW3SResponse example_body, example_cache1, 0)"
    "\<forall>k2. \<not> t_call k2 - ce_timestamp e < DEAL_CACHE_TTL \<longrightarrow>
        snd (snd (getDealInfo k2 example_cache1 ''a'')) = 1"
    by blast
  from e(1) have ts: "ce_timestamp e = 100" by (auto simp: example_cache1_def)
  have q1: "t_call example_query1 - ce_timestamp e < DEAL_CACHE_TTL"
    by (simp add: ts example_query1_def DEAL_CACHE_TTL_def)
  have q2: "\<not> t_call example_query2 - ce_timestamp e < DEAL_CACHE_TTL"
    by (simp add: ts example_query2_def DEAL_CACHE_TTL_def)
  have old: "distinct (map fst example_cache0)" "''old'' \<noteq> ''a''"
    "map_of example_cache0 ''old'' = Some \<lparr>ce_data = simulateDealInfo 0 ''old'', ce_timestamp = - 700000\<rparr>"
    by (simp_all add: example_cache0_def)
  from t old have ev: "map_of (cacheDeal 100 example_cache0 ''a'' (parseW3SResponse example_body)) ''old''
      = (if 100 - ce_timestamp \<lparr>ce_data = simulateDealInfo 0 ''old'', ce_timestamp = - 700000\<rparr> > DEAL_CACHE_TTL * 2
         then None else Some \<lparr>ce_data = simulateDealInfo 0 ''old'', ce_timestamp = - 700000\<rparr>)"
    by blast
  then have ev': "map_of (cacheDeal 100 example_cache0 ''a'' (parseW3SResponse example_body)) ''old'' = None"
    by (simp add: DEAL_CACHE_TTL_def)
  from c c' example_query0_result e(2) q1 e(3) q2 old(3) ev' show ?thesis by blast
qed

text \<open>
  Claim C8 as stated fails when the TTL is counted from the earlier call: the calls at 4
  and at 6 minutes are two minutes apart, the entry was written at 100 ms, and the second
  of them misses the cache and returns what the endpoint then answers.
\<close>

theorem getDealInfo_within_ttl_counterexample:
  "getDealInfo example_query0 example_cache0 ''a'' = (parseW3SResponse example_body, example_cache1, 1)
   \<and> t_call example_query2 - t_call example_query1 < DEAL_CACHE_TTL
   \<and> getDealInfo example_query1 example_cache1 ''a'' = (parseW3SResponse example_body, example_cache1, 0)
   \<and> status (fst (getDealInfo example_query1 example_cache1 ''a'')) = ACTIVE
   \<and> status (fst (getDealInfo example_query2 example_cache1 ''a'')) = NOT_FOUND
   \<and> fst (getDealInfo example_query1 example_cache1 ''a'')
       \<noteq> fst (getDealInfo example_query2 example_cache1 ''a'')"
proof -
  have a: "t_call example_query2 - t_call example_query1 < DEAL_CACHE_TTL"
    by (simp add: example_query1_def example_query2_def DEAL_CACHE_TTL_def)
  have b: "getDealInfo example_query1 example_cache1 ''a'' = (parseW3SResponse example_body, example_cache1, 0)"
    by (simp add: getDealInfo_def getCachedDeal_def example_query1_def example_cache1_def
        DEAL_CACHE_TTL_def)
  have c: "status (parseW3SResponse example_body) = ACTIVE"
    by (simp add: parseW3SResponse_def example_body_def mapDealStatus_def toLowerCase_def
        lowerChar_def char_of_def bit_Suc_0_iff Let_def)
  have d: "status (fst (getDealInfo example_query2 example_cache1 ''a'')) = NOT_FOUND"
    by (simp add: getDealInfo_def getCachedDeal_def example_query2_def example_cache1_def
        DEAL_CACHE_TTL_def fetchDealFromW3S_def Let_def)
  have e: "fst (getDealInfo example_query1 example_cache1 ''a'')
       \<noteq> fst (getDealInfo example_query2 example_cache1 ''a'')"
  proof
    assume "fst (getDealInfo example_query1 example_cache1 ''a'')
       = fst (getDealInfo example_query2 example_cache1 ''a'')"
    then have "status (fst (getDealInfo example_query1 example_cache1 ''a''))
       = status (fst (getDealInfo example_query2 example_cache1 ''a''))" by simp
    then show False unfolding d b using c by simp
  qed
  from example_query0_result a b c d e show ?thesis by simp
qed

section \<open>Properties of the gateways\<close>

text \<open>
  Claim C7. The ranking does not keep healthy gateways in latency order when a latency
  is 0 ms: \<open>a.health.latency || 9999\<close> reads 0 as missing, so the gateway that answered
  at once is ranked behind the one that took 200 ms. The theorem evaluates
  \<open>getGatewaysWithHealth\<close> at that assignment.
\<close>

theorem getGatewaysWithHealth_zero_latency:
  "map (\<lambda>g. (gw_id (fst g), healthy (snd g), latency (snd g))) (getGatewaysWithHealth example_health)
     = [(''dweb'', True, Some 200), (''w3s'', True, Some 0), (''ipfs-io'', False, None),
        (''cloudflare'', False, None), (''pinata'', False, None), (''nftstorage'', False, None)]"
  by (simp add: getGatewaysWithHealth_def GATEWAYS_def sort_cmp_def compareGateways_def
      latencyOr9999_def example_health_def)

text \<open>
  What the ranking does guarantee, for every health assignment: all configured gateways
  are returned, each once; a healthy gateway never follows an unhealthy one; healthy
  gateways are in the order of \<open>latency || 9999\<close>, unhealthy ones in the order of their
  priority.
\<close>

lemma set_insort_cmp: "set (insort_cmp c x xs) = insert x (set xs)"
  by (induction xs) auto

lemma length_insort_cmp: "length (insort_cmp c x xs) = Suc (length xs)"
  by (induction xs) auto

lemma set_sort_cmp: "set (sort_cmp c xs) = set xs"
  by (induction xs) (simp_all add: sort_cmp_def set_insort_cmp)

lemma length_sort_cmp: "length (sort_cmp c xs) = length xs"
  by (induction xs) (simp_all add: sort_cmp_def length_insort_cmp)

lemma sorted_insort_cmp:
  assumes tot: "\<And>a b. c a b \<le> 0 \<or> c b a \<le> 0"
    and trans: "\<And>a b d. c a b \<le> 0 \<Longrightarrow> c b d \<le> 0 \<Longrightarrow> c a d \<le> 0"
  shows "sorted_wrt (\<lambda>a b. c a b \<le> 0) xs \<Longrightarrow> sorted_wrt (\<lambda>a b. c a b \<le> 0) (insort_cmp c x xs)"
proof (induction xs)
  case Nil
  show ?case by simp
next
  case (Cons y ys)
  show ?case
  proof (cases "c x y \<le> 0")
    case True
    with Cons.prems show ?thesis by (auto intro: trans)
  next
    case False
    with tot [of x y] have yx: "c y x \<le> 0" by simp
    from Cons.prems have "sorted_wrt (\<lambda>a b. c a b \<le> 0) ys" by simp
    from Cons.IH [OF this] Cons.prems yx False show ?thesis
      by (auto simp: set_insort_cmp)
  qed
qed

lemma sorted_sort_cmp:
  assumes tot: "\<And>a b. c a b \<le> 0 \<or> c b a \<le> 0"
    and trans: "\<And>a b d. c a b \<le> 0 \<Longrightarrow> c b d \<le> 0 \<Longrightarrow> c a d \<le> 0"
  shows "sorted_wrt (\<lambda>a b. c a b \<le> 0) (sort_cmp c xs)"
proof (induction xs)
  case Nil
  show ?case by (simp add: sort_cmp_def)
next
  case (Cons x xs)
  have "sort_cmp c (x # xs) = insort_cmp c x (sort_cmp c xs)" by (simp add: sort_cmp_def)
  with sorted_insort_cmp [of c, OF tot trans Cons.IH] show ?case by simp
qed

lemma compareGateways_le:
  "compareGateways a b \<le> 0 \<longleftrightarrow>
     (healthy (snd a) \<and> \<not> healthy (snd b))
   \<or> (healthy (snd a) \<and> healthy (snd b) \<and> latencyOr9999 (snd a) \<le> latencyOr9999 (snd b))
   \<or> (\<not> healthy (snd a) \<and> \<not> healthy (snd b) \<and> priority (fst a) \<le> priority (fst b))"
  by (auto simp: compareGateways_def)

lemma getGatewaysWithHealth_ranked:
  "set (getGatewaysWithHealth hs) = (\<lambda>g. (g, hs (gw_id g))) ` set GATEWAYS"
  "length (getGatewaysWithHealth hs) = length GATEWAYS"
  "sorted_wrt (\<lambda>a b. compareGateways a b \<le> 0) (getGatewaysWithHealth hs)"
proof -
  show "set (getGatewaysWithHealth hs) = (\<lambda>g. (g, hs (gw_id g))) ` set GATEWAYS"
    by (simp add: getGatewaysWithHealth_def set_sort_cmp)
  show "length (getGatewaysWithHealth hs) = length GATEWAYS"
    by (simp add: getGatewaysWithHealth_def length_sort_cmp)
  show "sorted_wrt (\<lambda>a b. compareGateways a b \<le> 0) (getGatewaysWithHealth hs)"
    unfolding getGatewaysWithHealth_def
    by (rule sorted_sort_cmp) (auto simp: compareGateways_le)
qed

lemma getGatewaysWithHealth_order:
  assumes "i < j" "j < length (getGatewaysWithHealth hs)"
  shows "healthy (snd (getGatewaysWithHealth hs ! j)) \<Longrightarrow> healthy (snd (getGatewaysWithHealth hs ! i))"
    and "healthy (snd (getGatewaysWithHealth hs ! j)) \<Longrightarrow>
           latencyOr9999 (snd (getGatewaysWithHealth hs ! i)) \<le> latencyOr9999 (snd (getGatewaysWithHealth hs ! j))"
    and "\<not> healthy (snd (getGatewaysWithHealth hs ! i)) \<Longrightarrow>
           priority (fst (getGatewaysWithHealth hs ! i)) \<le> priority (fst (getGatewaysWithHealth hs ! j))"
proof -
  from getGatewaysWithHealth_ranked(3) [of hs] assms
  have "compareGateways (getGatewaysWithHealth hs ! i) (getGatewaysWithHealth hs ! j) \<le> 0"
    by (simp add: sorted_wrt_iff_nth_less)
  then have c: "(healthy (snd (getGatewaysWithHealth hs ! i)) \<and> \<not> healthy (snd (getGatewaysWithHealth hs ! j)))
   \<or> (healthy (snd (getGatewaysWithHealth hs ! i)) \<and> healthy (snd (getGatewaysWithHealth hs ! j))
        \<and> latencyOr9999 (snd (getGatewaysWithHealth hs ! i)) \<le> latencyOr9999 (snd (getGatewaysWithHealth hs ! j)))
   \<or> (\<not> healthy (snd (getGatewaysWithHealth hs ! i)) \<and> \<not> healthy (snd (getGatewaysWithHealth hs ! j))
        \<and> priority (fst (getGatewaysWithHealth hs ! i)) \<le> priority (fst (getGatewaysWithHealth hs ! j)))"
    by (simp only: compareGateways_le)
  from c show "healthy (snd (getGatewaysWithHealth hs ! j)) \<Longrightarrow> healthy (snd (getGatewaysWithHealth hs ! i))"
    by blast
  from c show "healthy (snd (getGatewaysWithHealth hs ! j)) \<Longrightarrow>
           latencyOr9999 (snd (getGatewaysWithHealth hs ! i)) \<le> latencyOr9999 (snd (getGatewaysWithHealth hs ! j))"
    by blast
  from c show "\<not> healthy (snd (getGatewaysWithHealth hs ! i)) \<Longrightarrow>
           priority (fst (getGatewaysWithHealth hs ! i)) \<le> priority (fst (getGatewaysWithHealth hs ! j))"
    by blast
qed

lemma tryGateways_general:
  "tryGateways net c gs st = (res, st') \<Longrightarrow>
     requested st' = requested st
        @ map (attemptUrl c) (take (Suc (length (takeWhile (attemptFails net c) gs))) gs)
   \<and> warned st' = warned st
        @ map (\<lambda>(n, e). (n, errorMessage e)) (rejections net c (takeWhile (attemptFails net c) gs))
   \<and> lastError st' = (case rev (rejections net c (takeWhile (attemptFails net c) gs)) of
                        [] \<Rightarrow> lastError st | (n, e) # _ \<Rightarrow> Some e)
   \<and> (case dropWhile (attemptFails net c) gs of
         g # _ \<Rightarrow> (\<exists>r. net (attemptUrl c g) = Resolved r \<and> ok r
                      \<and> res = Inr \<lparr>f_response = r, f_gateway = gw_name (fst g), f_url = attemptUrl c g\<rparr>)
       | [] \<Rightarrow> res = Inl (case lastError st' of Some e \<Rightarrow> e | None \<Rightarrow> Error ''All gateways failed''))"
proof (induction gs arbitrary: st)
  case Nil
  then show ?case by (auto simp: rejections_def)
next
  case (Cons g gs)
  let ?u = "gw_url (fst g) @ c"
  let ?st1 = "st\<lparr>requested := requested st @ [?u]\<rparr>"
  show ?case
  proof (cases "net ?u")
    case (Resolved r)
    show ?thesis
    proof (cases "ok r")
      case True
      with Resolved Cons.prems show ?thesis
        by (auto simp: attemptFails_def attemptUrl_def rejections_def Let_def)
    next
      case False
      with Resolved Cons.prems have rec: "tryGateways net c gs ?st1 = (res, st')"
        by (simp add: Let_def)
      have f: "attemptFails net c g" using Resolved False by (simp add: attemptFails_def attemptUrl_def)
      have rj: "rejections net c (g # takeWhile (attemptFails net c) gs)
          = rejections net c (takeWhile (attemptFails net c) gs)"
        using Resolved by (simp add: rejections_def attemptUrl_def)
      from Cons.IH [OF rec] show ?thesis
        using f rj by (auto simp: attemptUrl_def split: list.splits)
    qed
  next
    case (Rejected e)
    let ?st2 = "?st1\<lparr>lastError := Some e, warned := warned ?st1 @ [(gw_name (fst g), errorMessage e)]\<rparr>"
    from Rejected Cons.prems have rec: "tryGateways net c gs ?st2 = (res, st')"
      by (simp add: Let_def)
    have f: "attemptFails net c g" using Rejected by (simp add: attemptFails_def attemptUrl_def)
    have rj: "rejections net c (g # takeWhile (attemptFails net c) gs)
        = (gw_name (fst g), e) # rejections net c (takeWhile (attemptFails net c) gs)"
      using Rejected by (simp add: rejections_def attemptUrl_def)
    from Cons.IH [OF rec] show ?thesis
      using f rj by (auto simp: attemptUrl_def split: list.splits)
  qed
qed

text \<open>
  Claim C4, as amended. \<open>fetchWithFailover\<close> requests the candidates in their ranked
  order, one after the other, up to and including the first that answers ok. Every
  attempt that rejects (a network failure or the timeout) is recorded as \<open>lastError\<close> and
  warned about before the next one is tried; an attempt answered with an HTTP error is
  passed over and leaves no record. The result is the response, name and URL of the first
  candidate that answers ok. When none does, the call throws the last rejection itself,
  or the error "All gateways failed" when no attempt rejected.
\<close>

theorem fetchWithFailover_trace:
  assumes "fetchWithFailover hs net c = (res, st')"
  shows "requested st' = map (attemptUrl c)
            (take (Suc (length (takeWhile (attemptFails net c) (gatewaysToTry (getGatewaysWithHealth hs)))))
               (gatewaysToTry (getGatewaysWithHealth hs)))
   \<and> warned st' = map (\<lambda>(n, e). (n, errorMessage e))
        (rejections net c (takeWhile (attemptFails net c) (gatewaysToTry (getGatewaysWithHealth hs))))
   \<and> (case dropWhile (attemptFails net c) (gatewaysToTry (getGatewaysWithHealth hs)) of
         g # _ \<Rightarrow> (\<exists>r. net (attemptUrl c g) = Resolved r \<and> ok r
                      \<and> res = Inr \<lparr>f_response = r, f_gateway = gw_name (fst g), f_url = attemptUrl c g\<rparr>)
       | [] \<Rightarrow> res = Inl (case rev (rejections net c (gatewaysToTry (getGatewaysWithHealth hs))) of
                           [] \<Rightarrow> Error ''All gateways failed'' | (n, e) # _ \<Rightarrow> e))"
proof -
  let ?gs = "gatewaysToTry (getGatewaysWithHealth hs)"
  from assms have t: "tryGateways net c ?gs \<lparr>lastError = None, warned = [], requested = []\<rparr> = (res, st')"
    by (simp add: fetchWithFailover_def)
  note g = tryGateways_general [OF t]
  have a: "requested st' = map (attemptUrl c) (take (Suc (length (takeWhile (attemptFails net c) ?gs))) ?gs)"
    using g by simp
  have b: "warned st' = map (\<lambda>(n, e). (n, errorMessage e)) (rejections net c (takeWhile (attemptFails net c) ?gs))"
    using g by simp
  have c: "case dropWhile (attemptFails net c) ?gs of
         g # _ \<Rightarrow> (\<exists>r. net (attemptUrl c g) = Resolved r \<and> ok r
                      \<and> res = Inr \<lparr>f_response = r, f_gateway = gw_name (fst g), f_url = attemptUrl c g\<rparr>)
       | [] \<Rightarrow> res = Inl (case rev (rejections net c ?gs) of
                           [] \<Rightarrow> Error ''All gateways failed'' | (n, e) # _ \<Rightarrow> e)"
  proof (cases "dropWhile (attemptFails net c) ?gs")
    case Nil
    then have tw: "takeWhile (attemptFails net c) ?gs = ?gs"
      by (metis takeWhile_dropWhile_id append_Nil2)
    from g have "case dropWhile (attemptFails net c) ?gs of
         g # _ \<Rightarrow> (\<exists>r. net (attemptUrl c g) = Resolved r \<and> ok r
                      \<and> res = Inr \<lparr>f_response = r, f_gateway = gw_name (fst g), f_url = attemptUrl c g\<rparr>)
       | [] \<Rightarrow> res = Inl (case lastError st' of Some e \<Rightarrow> e | None \<Rightarrow> Error ''All gateways failed'')"
      by blast
    then have r1: "res = Inl (case lastError st' of Some e \<Rightarrow> e | None \<Rightarrow> Error ''All gateways failed'')"
      unfolding Nil by simp
    from g have r2: "lastError st' = (case rev (rejections net c ?gs) of [] \<Rightarrow> None | (n, e) # _ \<Rightarrow> Some e)"
      unfolding tw by (simp split: list.splits)
    have "res = Inl (case rev (rejections net c ?gs) of [] \<Rightarrow> Error ''All gateways failed'' | (n, e) # _ \<Rightarrow> e)"
      unfolding r1 r2 by (simp split: list.splits prod.splits)
    then show ?thesis unfolding Nil by simp
  next
    case (Cons x xs)
    with g show ?thesis by simp
  qed
  from a b c show ?thesis by blast
qed

lemma example_try_list:
  "map (\<lambda>g. gw_id (fst g)) (gatewaysToTry (getGatewaysWithHealth example_health3)) = [''w3s'', ''dweb'', ''ipfs-io'']"
  by (simp add: gatewaysToTry_def getGatewaysWithHealth_def GATEWAYS_def sort_cmp_def
      compareGateways_def latencyOr9999_def example_health3_def)

lemma example_fetch_rejecting:
  "fetchWithFailover example_health3 net_rejecting ''bafy'' =
     (Inr \<lparr>f_response = example_ok, f_gateway = ''IPFS.io'', f_url = ''https://ipfs.io/ipfs/bafy''\<rparr>,
      \<lparr>lastError = Some (Error ''Failed to fetch''),
       warned = [(''Web3.Storage'', ''Failed to fetch''), (''Dweb.link'', ''Failed to fetch'')],
       requested = [''https://w3s.link/ipfs/bafy'', ''https://dweb.link/ipfs/bafy'', ''https://ipfs.io/ipfs/bafy'']\<rparr>)"
  by (simp add: fetchWithFailover_def gatewaysToTry_def getGatewaysWithHealth_def GATEWAYS_def
      sort_cmp_def compareGateways_def latencyOr9999_def example_health3_def net_rejecting_def
      example_ok_def errorMessage_def Let_def)

text \<open>
  The theorem where only the third of three healthy gateways answers and the first two
  reject: the third's payload is returned and the trace holds the two rejections.
\<close>

theorem fetchWithFailover_trace_witness:
  "fetchWithFailover example_health3 net_rejecting ''bafy'' =
     (Inr \<lparr>f_response = example_ok, f_gateway = ''IPFS.io'', f_url = ''https://ipfs.io/ipfs/bafy''\<rparr>,
      \<lparr>lastError = Some (Error ''Failed to fetch''),
       warned = [(''Web3.Storage'', ''Failed to fetch''), (''Dweb.link'', ''Failed to fetch'')],
       requested = [''https://w3s.link/ipfs/bafy'', ''https://dweb.link/ipfs/bafy'', ''https://ipfs.io/ipfs/bafy'']\<rparr>)
   \<and> length (rejections net_rejecting ''bafy''
        (takeWhile (attemptFails net_rejecting ''bafy'') (gatewaysToTry (getGatewaysWithHealth example_health3)))) = 2"
proof -
  note t = fetchWithFailover_trace [OF example_fetch_rejecting]
  from t have "length (warned \<lparr>lastError = Some (Error ''Failed to fetch''),
       warned = [(''Web3.Storage'', ''Failed to fetch''), (''Dweb.link'', ''Failed to fetch'')],
       requested = [''https://w3s.link/ipfs/bafy'', ''https://dweb.link/ipfs/bafy'', ''https://ipfs.io/ipfs/bafy'']\<rparr>)
     = length (rejections net_rejecting ''bafy''
        (takeWhile (attemptFails net_rejecting ''bafy'') (gatewaysToTry (getGatewaysWithHealth example_health3))))"
    by (metis length_map)
  then show ?thesis using example_fetch_rejecting by simp
qed

text \<open>
  Claim C4 as stated fails twice. When the first two gateways answer with an HTTP error
  and the third answers ok, the third's payload is returned and the trace of failed
  attempts is empty, not two entries long. When all three reject, the error thrown is the
  last rejection itself, not an error saying that all gateways failed.
\<close>

theorem fetchWithFailover_trace_counterexample:
  "fetchWithFailover example_health3 net_http_errors ''bafy'' =
     (Inr \<lparr>f_response = example_ok, f_gateway = ''IPFS.io'', f_url = ''https://ipfs.io/ipfs/bafy''\<rparr>,
      \<lparr>lastError = None, warned = [],
       requested = [''https://w3s.link/ipfs/bafy'', ''https://dweb.link/ipfs/bafy'', ''https://ipfs.io/ipfs/bafy'']\<rparr>)
   \<and> fetchWithFailover example_health3 net_down ''bafy'' =
     (Inl (Error ''Failed to fetch''),
      \<lparr>lastError = Some (Error ''Failed to fetch''),
       warned = [(''Web3.Storage'', ''Failed to fetch''), (''Dweb.link'', ''Failed to fetch''),
                 (''IPFS.io'', ''Failed to fetch'')],
       requested = [''https://w3s.link/ipfs/bafy'', ''https://dweb.link/ipfs/bafy'', ''https://ipfs.io/ipfs/bafy'']\<rparr>)
   \<and> Error ''Failed to fetch'' \<noteq> Error ''All gateways failed''"
  by (simp add: fetchWithFailover_def gatewaysToTry_def getGatewaysWithHealth_def GATEWAYS_def
      sort_cmp_def compareGateways_def latencyOr9999_def example_health3_def net_http_errors_def
      net_down_def example_ok_def errorMessage_def Let_def)

section \<open>The simulated chain against the contract\<close>

subsection \<open>Digests equal up to case denote one value\<close>

lemma hexDigit_lt: "hexDigit ch = Some d \<Longrightarrow> d < 16"
  by (auto simp: hexDigit_def Let_def split: if_splits)

lemma lowerChar_code: "of_char (lowerChar ch) = (if 65 \<le> (of_char ch :: nat) \<and> (of_char ch :: nat) \<le> 90
     then (of_char ch :: nat) + 32 else of_char ch)"
  by (simp add: lowerChar_def)

lemma hexDigit_lower: "hexDigit (lowerChar ch) = hexDigit ch"
  unfolding hexDigit_def Let_def lowerChar_code by auto

lemma fold_case_digit:
  fixes n n' :: nat
  assumes "(if 48 \<le> n \<and> n \<le> 57 then Some (n - 48)
            else if 97 \<le> n \<and> n \<le> 102 then Some (n - 87)
            else if 65 \<le> n \<and> n \<le> 70 then Some (n - 55) else None) = Some d"
    and "(if 48 \<le> n' \<and> n' \<le> 57 then Some (n' - 48)
            else if 97 \<le> n' \<and> n' \<le> 102 then Some (n' - 87)
            else if 65 \<le> n' \<and> n' \<le> 70 then Some (n' - 55) else None) = Some d"
  shows "(if 65 \<le> n \<and> n \<le> 90 then n + 32 else n) = (if 65 \<le> n' \<and> n' \<le> 90 then n' + 32 else n')"
  using assms by (auto split: if_splits)

lemma lowerChar_eq_of_digit:
  assumes "hexDigit ch = Some d" "hexDigit ch' = Some d"
  shows "lowerChar ch = lowerChar ch'"
proof -
  have "(of_char (lowerChar ch) :: nat) = of_char (lowerChar ch')"
    unfolding lowerChar_code
    by (rule fold_case_digit [of "of_char ch" d "of_char ch'"])
       (use assms in \<open>simp_all only: hexDigit_def Let_def\<close>)
  then show ?thesis by simp
qed

lemma hexValue_lt: "hexValue s = Some v \<Longrightarrow> v < 16 ^ length s"
proof (induction s arbitrary: v)
  case Nil
  then show ?case by simp
next
  case (Cons ch cs)
  from Cons.prems obtain d w where d: "hexDigit ch = Some d" and w: "hexValue cs = Some w"
    and v: "v = d * 16 ^ length cs + w"
    by (auto split: option.splits)
  from hexDigit_lt [OF d] have "d \<le> 15" by simp
  then have "d * 16 ^ length cs \<le> 15 * 16 ^ length cs" by simp
  moreover from Cons.IH [OF w] have "w < 16 ^ length cs" .
  ultimately have "d * 16 ^ length cs + w < 16 * 16 ^ length cs" by linarith
  then show ?case by (simp add: v)
qed

lemma hexValue_lower: "hexValue (toLowerCase s) = hexValue s"
  by (induction s) (simp_all add: toLowerCase_def hexDigit_lower split: option.splits)

lemma digits_unique:
  fixes d d' w w' b :: nat
  assumes "d * b + w = d' * b + w'" "w < b" "w' < b"
  shows "d = d' \<and> w = w'"
proof -
  have "(d * b + w) div b = d" "(d' * b + w') div b = d'" using assms(2,3) by simp_all
  with assms(1) have "d = d'" by metis
  with assms(1) show ?thesis by simp
qed

lemma hexValue_inj:
  "length s = length t \<Longrightarrow> hexValue s = Some v \<Longrightarrow> hexValue t = Some v \<Longrightarrow> toLowerCase s = toLowerCase t"
proof (induction s t arbitrary: v rule: list_induct2)
  case Nil
  then show ?case by simp
next
  case (Cons x xs y ys)
  from Cons.prems(1) obtain d w where d: "hexDigit x = Some d" and w: "hexValue xs = Some w"
    and v: "v = d * 16 ^ length xs + w"
    by (auto split: option.splits)
  from Cons.prems(2) obtain d' w' where d': "hexDigit y = Some d'" and w': "hexValue ys = Some w'"
    and v': "v = d' * 16 ^ length ys + w'"
    by (auto split: option.splits)
  have "d * 16 ^ length xs + w = d' * 16 ^ length xs + w'"
    using v v' Cons.hyps by simp
  from digits_unique [OF this hexValue_lt [OF w]] hexValue_lt [OF w'] Cons.hyps
  have eq: "d = d'" "w = w'" by simp_all
  from lowerChar_eq_of_digit [OF d] d' eq have "lowerChar x = lowerChar y" by simp
  moreover from Cons.IH [OF w] w' eq have "toLowerCase xs = toLowerCase ys" by simp
  ultimately show ?case by (simp add: toLowerCase_def)
qed

lemma bytes32_of_hex_eq_iff:
  assumes "bytes32_of_hex x = Some h" "bytes32_of_hex y = Some h'"
  shows "h = h' \<longleftrightarrow> toLowerCase x = toLowerCase y"
proof -
  from assms(1) obtain v where lx: "length x = 64" and vx: "hexValue x = Some v" and h: "h = of_nat v"
    by (auto simp: bytes32_of_hex_def split: if_splits)
  from assms(2) obtain v' where ly: "length y = 64" and vy: "hexValue y = Some v'" and h': "h' = of_nat v'"
    by (auto simp: bytes32_of_hex_def split: if_splits)
  have b: "v < 2 ^ 256" "v' < 2 ^ 256"
    using hexValue_lt [OF vx] hexValue_lt [OF vy] lx ly by simp_all
  show ?thesis
  proof
    assume "h = h'"
    then have "unat (of_nat v :: 256 word) = unat (of_nat v' :: 256 word)" by (simp add: h h')
    with b have "v = v'" by (simp add: unat_of_nat)
    with vx vy lx ly show "toLowerCase x = toLowerCase y"
      using hexValue_inj [of x y v] by simp
  next
    assume "toLowerCase x = toLowerCase y"
    then have "hexValue x = hexValue y" by (metis hexValue_lower)
    with vx vy show "h = h'" by (simp add: h h')
  qed
qed

subsection \<open>One call, then any sequence\<close>

lemma corresponds_init: "corresponds (sim_init now) (deploy a)"
  by (simp add: corresponds_def sim_init_def deploy_def zeroProof_def)

lemma update_absent: "k \<notin> fst ` set al \<Longrightarrow> AList.update k v al = al @ [(k, v)]"
  by (induction al) auto

lemma sim_dup_id:
  "pid \<in> fst ` set (sc_proofs s) \<Longrightarrow>
     sim_registerProof tx now s pid h c = Inl (Error ''Proof ID already exists'')"
  by (simp add: sim_registerProof_def)

lemma sim_dup_hash:
  assumes "pid \<notin> fst ` set (sc_proofs s)"
    and "\<exists>p \<in> snd ` set (sc_proofs s). toLowerCase (sp_sha256Hash p) = toLowerCase h"
  shows "sim_registerProof tx now s pid h c = Inl (Error ''Hash already registered'')"
proof -
  from assms(2) have "list_ex (\<lambda>(_, proof). toLowerCase (sp_sha256Hash proof) = toLowerCase h) (sc_proofs s)"
    by (force simp: list_ex_iff)
  with assms(1) show ?thesis by (simp add: sim_registerProof_def Let_def)
qed

lemma sim_success:
  assumes "pid \<notin> fst ` set (sc_proofs s)"
    and "\<not> (\<exists>p \<in> snd ` set (sc_proofs s). toLowerCase (sp_sha256Hash p) = toLowerCase h)"
  shows "\<exists>r s'. sim_registerProof tx now s pid h c = Inr (r, s')
     \<and> sc_proofs s' = sc_proofs s @ [(pid, r_proof r)] \<and> sp_sha256Hash (r_proof r) = h
     \<and> sp_proofId (r_proof r) = pid \<and> sp_cid (r_proof r) = c"
proof -
  from assms(2) have "\<not> list_ex (\<lambda>(_, proof). toLowerCase (sp_sha256Hash proof) = toLowerCase h) (sc_proofs s)"
    by (force simp: list_ex_iff)
  with assms(1) show ?thesis
    by (simp add: sim_registerProof_def Let_def update_absent)
qed

lemma succ_nonzero:
  fixes w :: "256 word"
  assumes "unat w + 1 < 2 ^ 256"
  shows "w + 1 \<noteq> 0"
proof
  assume z: "w + 1 = 0"
  have "unat (w + 1) = (unat w + 1) mod 2 ^ 256"
    by (simp add: unat_word_ariths)
  also have "\<dots> = unat w + 1" using assms by simp
  finally show False using z by simp
qed

lemma step_refines:
  assumes R: "corresponds sim con"
    and pid: "pid \<noteq> []" and c: "c \<noteq> []" and ts: "block_timestamp env \<noteq> 0"
    and h: "bytes32_of_hex hs = Some h" and h0: "h \<noteq> 0"
    and b: "length (sc_proofs sim) + 1 < 2 ^ 256"
  shows "(\<exists>e e'. sim_registerProof tx now sim pid hs c = Inl e
            \<and> registerProof env con pid h c sp = Inl e' \<and> errorMessage e = revertMessage e')
       \<or> (\<exists>r sim' con'. sim_registerProof tx now sim pid hs c = Inr (r, sim')
            \<and> registerProof env con pid h c sp = Inr con' \<and> corresponds sim' con'
            \<and> length (sc_proofs sim') = length (sc_proofs sim) + 1)"
proof -
  from R have R1: "\<And>p. p \<in> fst ` set (sc_proofs sim) \<longleftrightarrow> timestamp (proofs con p) \<noteq> 0"
    and R2: "\<And>p. p \<in> snd ` set (sc_proofs sim) \<Longrightarrow> bytes32_of_hex (sp_sha256Hash p) \<noteq> None"
    and R3: "\<And>x. hashToProofId con x \<noteq> [] \<longleftrightarrow>
            (\<exists>p \<in> snd ` set (sc_proofs sim). bytes32_of_hex (sp_sha256Hash p) = Some x)"
    and R4: "unat (totalProofs con) = length (sc_proofs sim)"
    unfolding corresponds_def by blast+
  have same: "(\<exists>p \<in> snd ` set (sc_proofs sim). toLowerCase (sp_sha256Hash p) = toLowerCase hs)
      \<longleftrightarrow> hashToProofId con h \<noteq> []"
  proof -
    have "\<And>p. p \<in> snd ` set (sc_proofs sim) \<Longrightarrow>
        (toLowerCase (sp_sha256Hash p) = toLowerCase hs) = (bytes32_of_hex (sp_sha256Hash p) = Some h)"
    proof -
      fix p assume "p \<in> snd ` set (sc_proofs sim)"
      from R2 [OF this] obtain x where x: "bytes32_of_hex (sp_sha256Hash p) = Some x" by auto
      from bytes32_of_hex_eq_iff [OF x h] x
      show "(toLowerCase (sp_sha256Hash p) = toLowerCase hs) = (bytes32_of_hex (sp_sha256Hash p) = Some h)"
        by simp
    qed
    then show ?thesis unfolding R3 by blast
  qed
  show ?thesis
  proof (cases "pid \<in> fst ` set (sc_proofs sim)")
    case True
    then have "timestamp (proofs con pid) \<noteq> 0" by (simp add: R1)
    then have "registerProof env con pid h c sp = Inl (Revert ''Proof ID already exists'')"
      using pid c h0 by (simp add: registerProof_def)
    with sim_dup_id [OF True] show ?thesis
      by (simp add: errorMessage_def revertMessage_def)
  next
    case False
    then have t0: "timestamp (proofs con pid) = 0" using R1 by blast
    show ?thesis
    proof (cases "hashToProofId con h \<noteq> []")
      case True
      then have "registerProof env con pid h c sp = Inl (Revert ''Hash already registered'')"
        using pid c h0 t0 by (simp add: registerProof_def)
      moreover from True same have "\<exists>p \<in> snd ` set (sc_proofs sim). toLowerCase (sp_sha256Hash p) = toLowerCase hs"
        by simp
      ultimately show ?thesis using sim_dup_hash [OF False]
        by (simp add: errorMessage_def revertMessage_def)
    next
      case nh: False
      then have hh: "hashToProofId con h = []" by simp
      from nh same have ns: "\<not> (\<exists>p \<in> snd ` set (sc_proofs sim). toLowerCase (sp_sha256Hash p) = toLowerCase hs)"
        by simp
      from sim_success [OF False ns] obtain r sim' where
        s: "sim_registerProof tx now sim pid hs c = Inr (r, sim')"
        and sp: "sc_proofs sim' = sc_proofs sim @ [(pid, r_proof r)]" "sp_sha256Hash (r_proof r) = hs"
        by blast
      have ov: "totalProofs con + 1 \<noteq> 0"
        using b R4 by (intro succ_nonzero) simp
      from registerProof_succeeds [OF pid h0 c t0 hh ov] obtain con' where
        r: "registerProof env con pid h c sp = Inr con'" by blast
      note i = registerProof_Inr [OF r]
      have u: "unat (totalProofs con + 1) = unat (totalProofs con) + 1"
        using ov by (rule unat_succ_no_wrap)
      have C1: "\<forall>p. p \<in> fst ` set (sc_proofs sim') \<longleftrightarrow> timestamp (proofs con' p) \<noteq> 0"
        using R1 ts unfolding sp i(7) by auto
      have C2: "\<forall>p \<in> snd ` set (sc_proofs sim'). bytes32_of_hex (sp_sha256Hash p) \<noteq> None"
        using R2 h unfolding sp by (auto simp: sp(2))
      have C3: "\<forall>x. hashToProofId con' x \<noteq> [] \<longleftrightarrow>
            (\<exists>p \<in> snd ` set (sc_proofs sim'). bytes32_of_hex (sp_sha256Hash p) = Some x)"
      proof
        fix x
        show "hashToProofId con' x \<noteq> [] \<longleftrightarrow>
            (\<exists>p \<in> snd ` set (sc_proofs sim'). bytes32_of_hex (sp_sha256Hash p) = Some x)"
        proof (cases "x = h")
          case True
          have "hashToProofId con' h \<noteq> []" using pid unfolding i(7) by simp
          moreover have "\<exists>p \<in> snd ` set (sc_proofs sim'). bytes32_of_hex (sp_sha256Hash p) = Some h"
            unfolding sp(1) using h sp(2) by force
          ultimately show ?thesis using True by simp
        next
          case False
          have "hashToProofId con' x = hashToProofId con x" using False unfolding i(7) by simp
          moreover have "(\<exists>p \<in> snd ` set (sc_proofs sim'). bytes32_of_hex (sp_sha256Hash p) = Some x)
              \<longleftrightarrow> (\<exists>p \<in> snd ` set (sc_proofs sim). bytes32_of_hex (sp_sha256Hash p) = Some x)"
            unfolding sp(1) using h False sp(2) by auto
          ultimately show ?thesis using R3 by simp
        qed
      qed
      have C4: "unat (totalProofs con') = length (sc_proofs sim')"
        using R4 u unfolding sp(1) i(7) by simp
      from C1 C2 C3 C4 have "corresponds sim' con'" unfolding corresponds_def by blast
      with s r sp(1) show ?thesis by simp
    qed
  qed
qed

lemma run_refines:
  "corresponds sim con \<Longrightarrow> \<forall>k \<in> set ks. valid_call k \<Longrightarrow>
     length (sc_proofs sim) + length ks < 2 ^ 256 \<Longrightarrow> run_sim sim ks = run_contract con ks"
proof (induction ks arbitrary: sim con)
  case Nil
  show ?case by simp
next
  case (Cons k ks)
  from Cons.prems(2) have v: "valid_call k" and vs: "\<forall>k \<in> set ks. valid_call k" by simp_all
  from v obtain h where h: "bytes32_of_hex (rc_hash k) = Some h" "h \<noteq> 0"
    and p: "rc_proofId k \<noteq> []" "rc_cid k \<noteq> []" "block_timestamp (rc_env k) \<noteq> 0"
    by (auto simp: valid_call_def split: option.splits)
  from Cons.prems(3) have b: "length (sc_proofs sim) + 1 < 2 ^ 256"
    and bs: "length (sc_proofs sim) + length ks < 2 ^ 256" by simp_all
  from step_refines [OF Cons.prems(1) p h b, of "rc_txHash k" "rc_now k" "rc_provider k"]
  show ?case
  proof (elim disjE exE conjE)
    fix e e'
    assume "sim_registerProof (rc_txHash k) (rc_now k) sim (rc_proofId k) (rc_hash k) (rc_cid k) = Inl e"
      "registerProof (rc_env k) con (rc_proofId k) h (rc_cid k) (rc_provider k) = Inl e'"
      "errorMessage e = revertMessage e'"
    then show ?thesis using Cons.IH [OF Cons.prems(1) vs bs] h(1) by simp
  next
    fix r sim' con'
    assume a: "sim_registerProof (rc_txHash k) (rc_now k) sim (rc_proofId k) (rc_hash k) (rc_cid k) = Inr (r, sim')"
      "registerProof (rc_env k) con (rc_proofId k) h (rc_cid k) (rc_provider k) = Inr con'"
      "corresponds sim' con'" "length (sc_proofs sim') = length (sc_proofs sim) + 1"
    from a(4) Cons.prems(3) have "length (sc_proofs sim') + length ks < 2 ^ 256" by simp
    from Cons.IH [OF a(3) vs this] a(1,2) h(1) show ?thesis by simp
  qed
qed

text \<open>
  Claim C3, as amended. On every sequence of registration requests that pass the
  contract's input checks (an id and a locator that are not empty, a digest of 64 hex
  digits that is not zero; the block timestamp is never zero), the simulated chain,
  started empty, and the contract, freshly deployed, answer call by call alike: both
  succeed, or both fail with the same message, "Proof ID already exists" or "Hash
  already registered", the simulation comparing digests up to case where the contract
  compares \<open>bytes32\<close> values. The simulation does not make the input checks themselves.
\<close>

theorem sim_refines_contract:
  assumes "\<forall>k \<in> set ks. valid_call k" and "length ks < 2 ^ 256"
  shows "run_sim (sim_init now) ks = run_contract (deploy a) ks"
  using run_refines [OF corresponds_init assms(1)] assms(2) by (simp add: sim_init_def)

lemma hexValue_example: "hexValue example_digest = hexValue example_digest_upper"
  "hexValue other_digest = Some 255" "hexValue zero_digest = Some 0"
  by (simp_all add: example_digest_def example_digest_upper_def other_digest_def zero_digest_def
      hexDigit_def)

lemma example_calls_valid: "list_all valid_call example_calls"
  by (simp add: example_calls_def valid_call_def bytes32_of_hex_def example_digest_def
      example_digest_upper_def other_digest_def hexDigit_def example_env_def)

lemma example_run_sim:
  "run_sim (sim_init 1700000000) example_calls
     = [None, Some ''Hash already registered'', Some ''Proof ID already exists'', None]"
  by (simp add: example_calls_def sim_init_def sim_registerProof_def errorMessage_def
      example_digest_def example_digest_upper_def other_digest_def toLowerCase_def lowerChar_def
      char_of_def bit_Suc_0_iff Let_def)

text \<open>The theorem on the four example requests.\<close>

theorem sim_refines_contract_witness:
  "list_all valid_call example_calls
   \<and> run_sim (sim_init 1700000000) example_calls
       = [None, Some ''Hash already registered'', Some ''Proof ID already exists'', None]
   \<and> run_contract (deploy 7) example_calls
       = [None, Some ''Hash already registered'', Some ''Proof ID already exists'', None]"
proof -
  have v: "\<forall>k \<in> set example_calls. valid_call k"
    using example_calls_valid by (simp add: list_all_iff)
  have l: "length example_calls < 2 ^ 256"
    by (simp add: example_calls_def)
  from sim_refines_contract [OF v l, of 1700000000 7] example_run_sim example_calls_valid
  show ?thesis by simp
qed

text \<open>
  Claim C3 as stated fails for the input checks: the simulation registers a proof with an
  empty id, with an empty locator, and with the all-zero digest, each of which the
  contract rejects.
\<close>

theorem sim_no_input_check_counterexample:
  "(\<exists>r. sim_registerProof ''0xaa'' 1700000001 (sim_init 1700000000) [] example_digest ''bafy-one'' = Inr r)
   \<and> registerProof example_env (deploy 7) [] 1 ''bafy-one'' [] = Inl (Revert ''Invalid proof ID'')
   \<and> (\<exists>r. sim_registerProof ''0xaa'' 1700000001 (sim_init 1700000000) ''PV-1'' example_digest [] = Inr r)
   \<and> registerProof example_env (deploy 7) ''PV-1'' 1 [] [] = Inl (Revert ''Invalid CID'')
   \<and> (\<exists>r. sim_registerProof ''0xaa'' 1700000001 (sim_init 1700000000) ''PV-1'' zero_digest ''bafy-one'' = Inr r)
   \<and> bytes32_of_hex zero_digest = Some 0
   \<and> registerProof example_env (deploy 7) ''PV-1'' 0 ''bafy-one'' [] = Inl (Revert ''Invalid hash'')"
  by (simp add: sim_registerProof_def sim_init_def registerProof_def bytes32_of_hex_def
      zero_digest_def hexDigit_def Let_def)

section \<open>Properties of verification\<close>

lemma lowerChar_hexChar: "n < 16 \<Longrightarrow> lowerChar (hexChar n) = hexChar n"
  by (simp add: lowerChar_def hexChar_def)

lemma toLowerCase_hexByte: "toLowerCase (hexByte b) = hexByte b"
proof -
  have "unat b < 256" using unsigned_less [of b] by simp
  then have "unat b div 16 < 16" "unat b mod 16 < 16" by simp_all
  then show ?thesis by (simp add: toLowerCase_def hexByte_def lowerChar_hexChar)
qed

lemma toLowerCase_hashBuffer: "toLowerCase (hashBuffer digest buffer) = hashBuffer digest buffer"
proof -
  have "map lowerChar (concat (map hexByte xs)) = concat (map hexByte xs)" for xs
    using toLowerCase_hexByte by (induction xs) (simp_all add: toLowerCase_def)
  then show ?thesis by (simp add: toLowerCase_def hashBuffer_def)
qed

lemma verifyProof_value:
  "fst (verifyProof s pid h) \<longleftrightarrow> timestamp (proofs s pid) \<noteq> 0 \<and> sha256Hash (proofs s pid) = h"
  by (simp add: verifyProof_def Let_def word_greater_zero_iff)

lemma api_verifyProof_verdict:
  "v_verified (fst (api_verifyProof digest getProofById saved pid fd)) \<longleftrightarrow>
     (\<exists>p buffer. getProofById saved pid = Some p \<and> (fd = ArrayBuffer buffer \<or> fd = Blob buffer)
        \<and> p ''sha256Hash'' = Some (JStr (hashBuffer digest buffer)))"
  by (cases fd) (auto simp: api_verifyProof_def Let_def split: option.splits)

lemma api_verifyProof_saved:
  "snd (snd (api_verifyProof digest getProofById saved pid fd)) = saved"
  by (cases fd) (simp_all add: api_verifyProof_def Let_def split: option.splits)

text \<open>
  Claim C5. A hash is a hex text up to case: on the contract, where it is passed and
  stored as the \<open>bytes32\<close> value the text denotes, \<open>verifyProof(id, h)\<close> is true if and
  only if a proof with the id exists and the text of \<open>h\<close> equals the text of the stored
  hash up to case; so it is false for an unknown id and for any other hash, and the
  storage stays as it is. In the API service, where the saved proofs carry the lower-case
  digest \<open>createProof\<close> wrote, the verdict is true if and only if the proof is found, the
  file is a buffer or a blob, and the file's digest equals the stored one up to case; the
  verdict is false for an unknown id and the saved proofs stay as they are.
\<close>

theorem verifyProof_up_to_case:
  assumes hx: "bytes32_of_hex hx = Some h"
    and sx: "bytes32_of_hex sx = Some (sha256Hash (proofs s pid))"
    and lc: "\<forall>p. getProofById saved pid = Some p \<longrightarrow>
               (\<exists>d. p ''sha256Hash'' = Some (JStr d) \<and> toLowerCase d = d)"
  shows "(fst (verifyProof s pid h) \<longleftrightarrow>
            timestamp (proofs s pid) \<noteq> 0 \<and> toLowerCase hx = toLowerCase sx)
       \<and> (fst (verifyProof s pid h) \<longleftrightarrow>
            timestamp (proofs s pid) \<noteq> 0 \<and> sha256Hash (proofs s pid) = h)
       \<and> snd (verifyProof s pid h) = s
       \<and> (v_verified (fst (api_verifyProof digest getProofById saved pid fd)) \<longleftrightarrow>
            (\<exists>p d buffer. getProofById saved pid = Some p \<and> p ''sha256Hash'' = Some (JStr d)
               \<and> (fd = ArrayBuffer buffer \<or> fd = Blob buffer)
               \<and> toLowerCase (hashBuffer digest buffer) = toLowerCase d))
       \<and> (getProofById saved pid = None \<longrightarrow>
            \<not> v_verified (fst (api_verifyProof digest getProofById saved pid fd)))
       \<and> snd (snd (api_verifyProof digest getProofById saved pid fd)) = saved"
proof -
  have eq: "sha256Hash (proofs s pid) = h \<longleftrightarrow> toLowerCase hx = toLowerCase sx"
    using bytes32_of_hex_eq_iff [OF sx hx] by auto
  have a: "fst (verifyProof s pid h) \<longleftrightarrow> timestamp (proofs s pid) \<noteq> 0 \<and> toLowerCase hx = toLowerCase sx"
    unfolding verifyProof_value eq ..
  have b: "snd (verifyProof s pid h) = s"
    by (simp add: verifyProof_def Let_def)
  have c: "v_verified (fst (api_verifyProof digest getProofById saved pid fd)) \<longleftrightarrow>
            (\<exists>p d buffer. getProofById saved pid = Some p \<and> p ''sha256Hash'' = Some (JStr d)
               \<and> (fd = ArrayBuffer buffer \<or> fd = Blob buffer)
               \<and> toLowerCase (hashBuffer digest buffer) = toLowerCase d)"
  proof
    assume "v_verified (fst (api_verifyProof digest getProofById saved pid fd))"
    then obtain p buffer where p: "getProofById saved pid = Some p"
      "fd = ArrayBuffer buffer \<or> fd = Blob buffer"
      "p ''sha256Hash'' = Some (JStr (hashBuffer digest buffer))"
      unfolding api_verifyProof_verdict by blast
    then show "\<exists>p d buffer. getProofById saved pid = Some p \<and> p ''sha256Hash'' = Some (JStr d)
               \<and> (fd = ArrayBuffer buffer \<or> fd = Blob buffer)
               \<and> toLowerCase (hashBuffer digest buffer) = toLowerCase d"
      by blast
  next
    assume "\<exists>p d buffer. getProofById saved pid = Some p \<and> p ''sha256Hash'' = Some (JStr d)
               \<and> (fd = ArrayBuffer buffer \<or> fd = Blob buffer)
               \<and> toLowerCase (hashBuffer digest buffer) = toLowerCase d"
    then obtain p d buffer where p: "getProofById saved pid = Some p" "p ''sha256Hash'' = Some (JStr d)"
      "fd = ArrayBuffer buffer \<or> fd = Blob buffer"
      "toLowerCase (hashBuffer digest buffer) = toLowerCase d"
      by blast
    from lc p(1,2) have "toLowerCase d = d" by auto
    with p(4) have "hashBuffer digest buffer = d" by (simp add: toLowerCase_hashBuffer)
    with p(1,2,3) show "v_verified (fst (api_verifyProof digest getProofById saved pid fd))"
      unfolding api_verifyProof_verdict by blast
  qed
  have d: "getProofById saved pid = None \<longrightarrow>
            \<not> v_verified (fst (api_verifyProof digest getProofById saved pid fd))"
    unfolding api_verifyProof_verdict by simp
  have e: "fst (verifyProof s pid h) \<longleftrightarrow>
            timestamp (proofs s pid) \<noteq> 0 \<and> sha256Hash (proofs s pid) = h"
    by (rule verifyProof_value)
  have f: "snd (snd (api_verifyProof digest getProofById saved pid fd)) = saved"
    by (rule api_verifyProof_saved)
  show ?thesis by (intro conjI a e b c d f)
qed

lemma example_hashBuffer: "hashBuffer (\<lambda>_. example_digest_bytes) [] = example_digest"
  by (simp add: hashBuffer_def hexByte_def hexChar_def example_digest_bytes_def example_digest_def
      char_of_def bit_Suc_0_iff)

lemma other_digest_value:
  "bytes32_of_hex other_digest = Some 255" "bytes32_of_hex other_digest_upper = Some 255"
  by (simp_all add: bytes32_of_hex_def other_digest_def other_digest_upper_def hexDigit_def)

text \<open>
  The theorem on a contract where \<open>PV-1\<close> is registered with the hash \<open>00...ff\<close>, verified
  with the text \<open>00...FF\<close>, and on a store holding the proof of the empty file.
\<close>

theorem verifyProof_up_to_case_witness:
  "bytes32_of_hex other_digest_upper = Some 255
   \<and> bytes32_of_hex other_digest = Some 255
   \<and> toLowerCase other_digest_upper = toLowerCase other_digest
   \<and> (\<exists>s. registerProof example_env (deploy 7) ''PV-1'' 255 ''bafy-one'' [] = Inr s
         \<and> sha256Hash (proofs s ''PV-1'') = 255
         \<and> verifyProof s ''PV-1'' 255 = (True, s))
   \<and> example_lookup example_saved ''PV-1''
        = Some [''proofId'' \<mapsto> JStr ''PV-1'', ''sha256Hash'' \<mapsto> JStr example_digest]
   \<and> toLowerCase example_digest = example_digest
   \<and> v_verified (fst (api_verifyProof (\<lambda>_. example_digest_bytes) example_lookup example_saved
        ''PV-1'' (ArrayBuffer [])))
   \<and> snd (snd (api_verifyProof (\<lambda>_. example_digest_bytes) example_lookup example_saved
        ''PV-1'' (ArrayBuffer []))) = example_saved"
proof -
  have pre: "''PV-1'' \<noteq> []" "(255 :: bytes32) \<noteq> 0" "''bafy-one'' \<noteq> []"
    "timestamp (proofs (deploy 7) ''PV-1'') = 0" "hashToProofId (deploy 7) 255 = []"
    "totalProofs (deploy 7) + 1 \<noteq> 0"
    by (simp_all add: deploy_def zeroProof_def)
  from registerProof_succeeds [OF pre, of example_env "[]"] obtain s where
    r: "registerProof example_env (deploy 7) ''PV-1'' 255 ''bafy-one'' [] = Inr s" by blast
  note i = registerProof_Inr [OF r]
  have st: "sha256Hash (proofs s ''PV-1'') = 255" "timestamp (proofs s ''PV-1'') \<noteq> 0"
    unfolding i(7) by (simp_all add: example_env_def)
  have lo: "toLowerCase other_digest_upper = toLowerCase other_digest"
    using bytes32_of_hex_eq_iff [OF other_digest_value(2) other_digest_value(1)] by simp
  have look: "example_lookup example_saved ''PV-1''
        = Some [''proofId'' \<mapsto> JStr ''PV-1'', ''sha256Hash'' \<mapsto> JStr example_digest]"
    by (simp add: example_lookup_def example_saved_def)
  have low: "toLowerCase example_digest = example_digest"
    using toLowerCase_hashBuffer [of "\<lambda>_. example_digest_bytes" "[]"] by (simp add: example_hashBuffer)
  have lc: "\<forall>p. example_lookup example_saved ''PV-1'' = Some p \<longrightarrow>
               (\<exists>d. p ''sha256Hash'' = Some (JStr d) \<and> toLowerCase d = d)"
    using low by (simp add: look)
  have sx: "bytes32_of_hex other_digest = Some (sha256Hash (proofs s ''PV-1''))"
    by (simp add: st other_digest_value)
  note t = verifyProof_up_to_case [where getProofById = example_lookup and saved = example_saved
      and digest = "\<lambda>_. example_digest_bytes" and fd = "ArrayBuffer []", OF other_digest_value(2) sx lc]
  from t have t1: "fst (verifyProof s ''PV-1'' 255) \<longleftrightarrow>
      timestamp (proofs s ''PV-1'') \<noteq> 0 \<and> toLowerCase other_digest_upper = toLowerCase other_digest"
    by (rule conjunct1)
  from t have t3: "snd (verifyProof s ''PV-1'' 255) = s"
    by (elim conjE)
  from t have t4: "v_verified (fst (api_verifyProof (\<lambda>_. example_digest_bytes) example_lookup example_saved
        ''PV-1'' (ArrayBuffer []))) \<longleftrightarrow>
      (\<exists>p d buffer. example_lookup example_saved ''PV-1'' = Some p \<and> p ''sha256Hash'' = Some (JStr d)
         \<and> (ArrayBuffer [] = ArrayBuffer buffer \<or> ArrayBuffer [] = Blob buffer)
         \<and> toLowerCase (hashBuffer (\<lambda>_. example_digest_bytes) buffer) = toLowerCase d)"
    by (elim conjE)
  from t have a2: "snd (snd (api_verifyProof (\<lambda>_. example_digest_bytes) example_lookup example_saved
        ''PV-1'' (ArrayBuffer []))) = example_saved"
    by (elim conjE)
  from t1 st(2) lo have v1: "fst (verifyProof s ''PV-1'' 255)" by simp
  from v1 t3 have v: "verifyProof s ''PV-1'' 255 = (True, s)"
    by (cases "verifyProof s ''PV-1'' 255") simp
  have ex: "\<exists>p d buffer. example_lookup example_saved ''PV-1'' = Some p \<and> p ''sha256Hash'' = Some (JStr d)
      \<and> (ArrayBuffer [] = ArrayBuffer buffer \<or> ArrayBuffer [] = Blob buffer)
      \<and> toLowerCase (hashBuffer (\<lambda>_. example_digest_bytes) buffer) = toLowerCase d"
    using look by (intro exI [of _ "[''proofId'' \<mapsto> JStr ''PV-1'', ''sha256Hash'' \<mapsto> JStr example_digest]"]
        exI [of _ example_digest] exI [of _ "[]"]) (simp add: example_hashBuffer)
  have a1: "v_verified (fst (api_verifyProof (\<lambda>_. example_digest_bytes) example_lookup example_saved
        ''PV-1'' (ArrayBuffer [])))"
    unfolding t4 by (rule ex)
  have reg: "\<exists>s. registerProof example_env (deploy 7) ''PV-1'' 255 ''bafy-one'' [] = Inr s
         \<and> sha256Hash (proofs s ''PV-1'') = 255
         \<and> verifyProof s ''PV-1'' 255 = (True, s)"
    using r st(1) v by (intro exI [of _ s]) simp
  show ?thesis
    by (intro conjI other_digest_value(2) other_digest_value(1) lo reg look low a1 a2)
qed

end
